theory Spec2Isabelle
  imports Complex_Main "HOL-Library.Sublist"
begin

section \<open>The lead import dialog (ImportLeadsDialog.tsx)\<close>

text \<open>
  A shallow embedding of the import pipeline of \<^verbatim>\<open>ImportLeadsDialog\<close>: the component state,
  \<^verbatim>\<open>resetState\<close>, \<^verbatim>\<open>handleFileChange\<close>, \<^verbatim>\<open>processLeads\<close> and \<^verbatim>\<open>handleImport\<close>.

  Conventions of the embedding.
  \<^item> A JavaScript string is a \<open>string\<close>; a character stands for a code unit below 256.
  \<^item> A cell is a JavaScript value: \<open>undefined\<close>, \<open>null\<close>, a boolean, a number or a
    string. Numeric cells are modelled at integral values (\<open>Num n\<close>), rendered by
    \<open>String\<close> in decimal; fractional cells and IEEE rounding are not part of the embedding.
  \<^item> A plain object (a raw row, a vocabulary table) is the list of its own entries in
    definition order, a later entry overriding an earlier one of the same key. A property
    read that finds no own entry falls through to \<open>Object.prototype\<close>, as \<open>obj[key]\<close> does.
  \<^item> An array (a row of the sheet) is the list of its elements, \<open>None\<close> standing for a
    hole: with \<open>header: 1\<close> a blank cell of the sheet is a hole of the row's array.
  \<^item> \<open>Date.now()\<close> and \<open>new Date()\<close> read a clock: \<open>clock k\<close> is the instant (in
    milliseconds) returned by the \<open>k\<close>-th read of one run. The record fields \<open>createdAt\<close>
    and \<open>updatedAt\<close> hold the instant whose ISO rendering the code stores.
\<close>

subsection \<open>JavaScript values\<close>

datatype jsval =
    Undefined
  | Null
  | Bool bool
  | Num int
  | Str string
  | Inherited string  \<comment> \<open>the member of \<open>Object.prototype\<close> of that name (a function or object)\<close>

text \<open>The numbers \<open>Number(v)\<close> can return: the value of a numeric literal, an infinity, or NaN.\<close>

datatype jsnum = NaN | PosInfinity | NegInfinity | Fin rat

type_synonym jsobj = "(string \<times> jsval) list"

definition objectPrototypeNames :: "string list" where
  "objectPrototypeNames =
     [''constructor'', ''__proto__'', ''hasOwnProperty'', ''isPrototypeOf'',
      ''propertyIsEnumerable'', ''toLocaleString'', ''toString'', ''valueOf'',
      ''__defineGetter__'', ''__defineSetter__'', ''__lookupGetter__'', ''__lookupSetter__'']"

text \<open>\<open>obj[key]\<close> on a plain object.\<close>

definition getProp :: "jsobj \<Rightarrow> string \<Rightarrow> jsval" where
  "getProp obj k =
     (case map_of (rev obj) k of
        Some v \<Rightarrow> v
      | None \<Rightarrow> if k \<in> set objectPrototypeNames then Inherited k else Undefined)"

text \<open>\<open>!v\<close>: the falsy values are undefined, null, false, 0 and the empty string.\<close>

fun falsy :: "jsval \<Rightarrow> bool" where
  "falsy Undefined = True"
| "falsy Null = True"
| "falsy (Bool b) = (\<not> b)"
| "falsy (Num n) = (n = 0)"
| "falsy (Str s) = (s = [])"
| "falsy (Inherited k) = False"

text \<open>\<open>a || b\<close>.\<close>

definition js_or :: "jsval \<Rightarrow> jsval \<Rightarrow> jsval" where
  "js_or a b = (if falsy a then b else a)"

subsection \<open>String conversion\<close>

definition digitChar :: "nat \<Rightarrow> char" where
  "digitChar d = char_of (48 + d)"

function digits :: "nat \<Rightarrow> string" where
  "digits n = (if n < 10 then [digitChar n] else digits (n div 10) @ [digitChar (n mod 10)])"
  by pat_completeness auto
termination
  by (relation "measure (\<lambda>n. n)") auto

declare digits.simps [simp del]

definition showInt :: "int \<Rightarrow> string" where
  "showInt i = (if i < 0 then CHR ''-'' # digits (nat (- i)) else digits (nat i))"

text \<open>\<open>String(v)\<close>. An inherited member renders as a native function does, the prototype
  object itself as \<open>[object Object]\<close>.\<close>

fun js_String :: "jsval \<Rightarrow> string" where
  "js_String Undefined = ''undefined''"
| "js_String Null = ''null''"
| "js_String (Bool b) = (if b then ''true'' else ''false'')"
| "js_String (Num n) = showInt n"
| "js_String (Str s) = s"
| "js_String (Inherited k) =
     (if k = ''__proto__'' then ''[object Object]''
      else ''function '' @ (if k = ''constructor'' then ''Object'' else k) @ ''() { [native code] }'')"

text \<open>\<open>toLowerCase\<close> on code units below 256: A-Z and the accented capitals move by 32.\<close>

definition lowerChar :: "char \<Rightarrow> char" where
  "lowerChar c =
     (let n = (of_char c :: nat) in
      if (65 \<le> n \<and> n \<le> 90) \<or> (192 \<le> n \<and> n \<le> 222 \<and> n \<noteq> 215) then char_of (n + 32) else c)"

definition toLowerCase :: "string \<Rightarrow> string" where
  "toLowerCase s = map lowerChar s"

text \<open>The class \<open>\s\<close> of a regular expression, which is also the white space that
  \<open>Number\<close> trims: TAB, LF, VT, FF, CR, space and the no-break space.\<close>

definition isSpace :: "char \<Rightarrow> bool" where
  "isSpace c = ((of_char c :: nat) \<in> {9, 10, 11, 12, 13, 32, 160})"

text \<open>\<open>s.replace(/\s/g, "")\<close>.\<close>

definition stripSpaces :: "string \<Rightarrow> string" where
  "stripSpaces s = filter (\<lambda>c. \<not> isSpace c) s"

subsection \<open>Numeric conversion\<close>

definition isDigit :: "char \<Rightarrow> bool" where
  "isDigit c = (48 \<le> (of_char c :: nat) \<and> (of_char c :: nat) \<le> 57)"

definition hexVal :: "char \<Rightarrow> nat option" where
  "hexVal c =
     (let n = (of_char c :: nat) in
      if 48 \<le> n \<and> n \<le> 57 then Some (n - 48)
      else if 97 \<le> n \<and> n \<le> 102 then Some (n - 87)
      else if 65 \<le> n \<and> n \<le> 70 then Some (n - 55)
      else None)"

text \<open>The value of a non-empty digit string in a base; \<open>None\<close> when a character is no digit of it.\<close>

fun radixVal :: "nat \<Rightarrow> nat \<Rightarrow> string \<Rightarrow> nat option" where
  "radixVal b acc [] = Some acc"
| "radixVal b acc (c # cs) =
     (case hexVal c of
        None \<Rightarrow> None
      | Some d \<Rightarrow> if d < b then radixVal b (acc * b + d) cs else None)"

definition radixLiteral :: "nat \<Rightarrow> string \<Rightarrow> jsnum" where
  "radixLiteral b ds =
     (if ds = [] then NaN
      else case radixVal b 0 ds of None \<Rightarrow> NaN | Some v \<Rightarrow> Fin (of_nat v))"

definition decVal :: "string \<Rightarrow> nat" where
  "decVal ds = (case radixVal 10 0 ds of Some v \<Rightarrow> v | None \<Rightarrow> 0)"

text \<open>\<open>ExponentPart\<close>, optional: nothing, or e/E, an optional sign and at least one digit.\<close>

definition exponentPart :: "string \<Rightarrow> int option" where
  "exponentPart r =
     (case r of
        [] \<Rightarrow> Some 0
      | c # r' \<Rightarrow>
          if c = CHR ''e'' \<or> c = CHR ''E'' then
            (let (neg, ds) =
               (case r' of
                  [] \<Rightarrow> (False, [])
                | s # r'' \<Rightarrow>
                    if s = CHR ''-'' then (True, r'')
                    else if s = CHR ''+'' then (False, r'') else (False, r'))
             in if ds \<noteq> [] \<and> list_all isDigit ds
                then Some (if neg then - int (decVal ds) else int (decVal ds))
                else None)
          else None)"

definition scale10 :: "nat \<Rightarrow> int \<Rightarrow> rat" where
  "scale10 m e = (if 0 \<le> e then of_nat m * 10 ^ nat e else of_nat m / 10 ^ nat (- e))"

text \<open>\<open>StrUnsignedDecimalLiteral\<close>: \<open>Infinity\<close>, digits with an optional fraction, or a
  fraction alone, each with an optional exponent.\<close>

definition unsignedDecimal :: "string \<Rightarrow> jsnum" where
  "unsignedDecimal u =
     (if u = ''Infinity'' then PosInfinity
      else
        let ip = takeWhile isDigit u;
            r1 = dropWhile isDigit u;
            (fp, r2) =
              (case r1 of
                 [] \<Rightarrow> ([], r1)
               | c # r \<Rightarrow>
                   if c = CHR ''.'' then (takeWhile isDigit r, dropWhile isDigit r) else ([], r1))
        in if ip = [] \<and> fp = [] then NaN
           else case exponentPart r2 of
                  None \<Rightarrow> NaN
                | Some e \<Rightarrow> Fin (scale10 (decVal (ip @ fp)) (e - int (length fp))))"

definition negNum :: "jsnum \<Rightarrow> jsnum" where
  "negNum x =
     (case x of
        NaN \<Rightarrow> NaN
      | PosInfinity \<Rightarrow> NegInfinity
      | NegInfinity \<Rightarrow> PosInfinity
      | Fin q \<Rightarrow> Fin (- q))"

definition trimSpaces :: "string \<Rightarrow> string" where
  "trimSpaces s = rev (dropWhile isSpace (rev (dropWhile isSpace s)))"

text \<open>\<open>Number(s)\<close> for a string: the empty or blank string is 0, a literal has its value,
  anything else is NaN.\<close>

definition stringToNumber :: "string \<Rightarrow> jsnum" where
  "stringToNumber s =
     (let t = trimSpaces s in
      case t of
        [] \<Rightarrow> Fin 0
      | c # r \<Rightarrow>
          if c = CHR ''0'' \<and> r \<noteq> [] \<and> hd r \<in> {CHR ''x'', CHR ''X''} then radixLiteral 16 (tl r)
          else if c = CHR ''0'' \<and> r \<noteq> [] \<and> hd r \<in> {CHR ''o'', CHR ''O''} then radixLiteral 8 (tl r)
          else if c = CHR ''0'' \<and> r \<noteq> [] \<and> hd r \<in> {CHR ''b'', CHR ''B''} then radixLiteral 2 (tl r)
          else if c = CHR ''-'' then negNum (unsignedDecimal r)
          else if c = CHR ''+'' then unsignedDecimal r
          else unsignedDecimal t)"

text \<open>\<open>Number(v)\<close>.\<close>

fun js_Number :: "jsval \<Rightarrow> jsnum" where
  "js_Number Undefined = NaN"
| "js_Number Null = Fin 0"
| "js_Number (Bool b) = Fin (if b then 1 else 0)"
| "js_Number (Num n) = Fin (of_int n)"
| "js_Number (Str s) = stringToNumber s"
| "js_Number (Inherited k) = stringToNumber (js_String (Inherited k))"

text \<open>\<open>x || 0\<close> on a number: NaN and zero are falsy.\<close>

definition numOrZero :: "jsnum \<Rightarrow> jsnum" where
  "numOrZero x = (if x = NaN \<or> x = Fin 0 then Fin 0 else x)"

subsection \<open>Schema and vocabulary tables\<close>

record leadField =
  key :: string
  label :: string
  required :: bool

definition leadFields :: "leadField list" where
  "leadFields =
     [\<lparr>key = ''name'', label = ''Name'', required = True\<rparr>,
      \<lparr>key = ''phone'', label = ''Phone'', required = True\<rparr>,
      \<lparr>key = ''email'', label = ''Email'', required = False\<rparr>,
      \<lparr>key = ''city'', label = ''City'', required = False\<rparr>,
      \<lparr>key = ''value'', label = ''Lead Value'', required = False\<rparr>,
      \<lparr>key = ''source'', label = ''Source'', required = False\<rparr>,
      \<lparr>key = ''stage'', label = ''Stage'', required = False\<rparr>,
      \<lparr>key = ''priority'', label = ''Priority'', required = False\<rparr>,
      \<lparr>key = ''status'', label = ''Status'', required = False\<rparr>,
      \<lparr>key = ''projectName'', label = ''Project Name'', required = False\<rparr>,
      \<lparr>key = ''notes'', label = ''Notes'', required = False\<rparr>]"

definition sourceMapping :: jsobj where
  "sourceMapping =
     [(''website'', Str ''website''),
      (''google'', Str ''google_ads''),
      (''referral'', Str ''referral''),
      (''social'', Str ''social_media''),
      (''other'', Str ''other'')]"

definition stageMapping :: jsobj where
  "stageMapping =
     [(''new'', Str ''new''),
      (''qualified'', Str ''qualified''),
      (''proposal'', Str ''proposal''),
      (''negotiation'', Str ''negotiation''),
      (''won'', Str ''won''),
      (''lost'', Str ''lost'')]"

definition priorityMapping :: jsobj where
  "priorityMapping =
     [(''hot'', Str ''hot''),
      (''warm'', Str ''warm''),
      (''cold'', Str ''cold'')]"

subsection \<open>Candidate records\<close>

text \<open>\<open>Partial<Lead>\<close>: the fields the default object sets are always there, the others
  are \<open>None\<close> until a mapped cell sets them.\<close>

record lead =
  leadId :: string
  createdAt :: int
  updatedAt :: int
  status :: string
  stage :: jsval
  priority :: jsval
  category :: string
  subcategory :: string
  name :: "string option"
  phone :: "string option"
  email :: "string option"
  city :: "string option"
  "value" :: "jsnum option"
  source :: "jsval option"
  projectName :: "string option"
  "notes" :: "string option"

text \<open>The object literal that opens the loop body; row \<open>index\<close> makes the clock reads
  \<open>3 * index\<close>, \<open>3 * index + 1\<close> and \<open>3 * index + 2\<close>.\<close>

definition defaultLead :: "(nat \<Rightarrow> int) \<Rightarrow> nat \<Rightarrow> lead" where
  "defaultLead clock index =
     \<lparr>leadId = ''import_'' @ showInt (clock (3 * index)) @ ''_'' @ showInt (int index),
      createdAt = clock (3 * index + 1),
      updatedAt = clock (3 * index + 2),
      status = ''active'',
      stage = Str ''new'',
      priority = Str ''warm'',
      category = ''property'',
      subcategory = ''india_property'',
      name = None, phone = None, email = None, city = None, value = None,
      source = None, projectName = None, notes = None\<rparr>"

text \<open>The body of the inner \<open>forEach\<close>: one entry \<open>[key, col]\<close> of the column mapping.\<close>

definition applyField :: "jsobj \<Rightarrow> string \<times> string \<Rightarrow> lead \<Rightarrow> lead" where
  "applyField row kc l =
     (let k = fst kc; col = snd kc; val = getProp row col in
      if falsy val then l
      else if k = ''name'' then l\<lparr>name := Some (js_String val)\<rparr>
      else if k = ''phone'' then l\<lparr>phone := Some (js_String val)\<rparr>
      else if k = ''email'' then l\<lparr>email := Some (js_String val)\<rparr>
      else if k = ''city'' then l\<lparr>city := Some (js_String val)\<rparr>
      else if k = ''value'' then l\<lparr>value := Some (numOrZero (js_Number val))\<rparr>
      else if k = ''source'' then
        l\<lparr>source := Some (js_or (getProp sourceMapping (toLowerCase (js_String val))) (Str ''other''))\<rparr>
      else if k = ''stage'' then
        l\<lparr>stage := js_or (getProp stageMapping (toLowerCase (js_String val))) (Str ''new'')\<rparr>
      else if k = ''priority'' then
        l\<lparr>priority := js_or (getProp priorityMapping (toLowerCase (js_String val))) (Str ''warm'')\<rparr>
      else if k = ''projectName'' then l\<lparr>projectName := Some (js_String val)\<rparr>
      else if k = ''notes'' then l\<lparr>notes := Some (js_String val)\<rparr>
      else l)"

text \<open>The candidate record of one row: the defaults, then every entry of the mapping.
  The column mapping is the list \<open>Object.entries(columnMapping)\<close>.\<close>

definition mkLead :: "(nat \<Rightarrow> int) \<Rightarrow> (string \<times> string) list \<Rightarrow> nat \<Rightarrow> jsobj \<Rightarrow> lead" where
  "mkLead clock cm index row = fold (applyField row) cm (defaultLead clock index)"

text \<open>\<open>!s\<close> on an optional string field.\<close>

definition unset :: "string option \<Rightarrow> bool" where
  "unset f = (case f of None \<Rightarrow> True | Some s \<Rightarrow> s = [])"

text \<open>\<open>!lead.name || !lead.phone\<close>.\<close>

definition rejected :: "lead \<Rightarrow> bool" where
  "rejected l = (unset (name l) \<or> unset (phone l))"

text \<open>The identity key \<open>lead.phone.replace(/\s/g, "")\<close>.\<close>

definition phoneKey :: "lead \<Rightarrow> string" where
  "phoneKey l = (case phone l of None \<Rightarrow> [] | Some p \<Rightarrow> stripSpaces p)"

subsection \<open>processLeads\<close>

text \<open>The three local variables of \<open>processLeads\<close>.\<close>

record acc =
  leads :: "lead list"
  phoneSet :: "string set"
  dupCount :: nat

definition emptyAcc :: acc where
  "emptyAcc = \<lparr>leads = [], phoneSet = {}, dupCount = 0\<rparr>"

text \<open>The part of the loop body after the record is built.\<close>

definition admit :: "lead \<Rightarrow> acc \<Rightarrow> acc" where
  "admit l a =
     (if rejected l then a
      else if phoneKey l \<in> phoneSet a then a\<lparr>dupCount := dupCount a + 1\<rparr>
      else a\<lparr>phoneSet := insert (phoneKey l) (phoneSet a), leads := leads a @ [l]\<rparr>)"

definition processRow :: "(nat \<Rightarrow> int) \<Rightarrow> (string \<times> string) list \<Rightarrow> nat \<times> jsobj \<Rightarrow> acc \<Rightarrow> acc" where
  "processRow clock cm ir a = admit (mkLead clock cm (fst ir) (snd ir)) a"

definition processRows :: "(nat \<Rightarrow> int) \<Rightarrow> (string \<times> string) list \<Rightarrow> jsobj list \<Rightarrow> acc" where
  "processRows clock cm rows = fold (processRow clock cm) (enumerate 0 rows) emptyAcc"

subsection \<open>Component state\<close>

datatype step = Upload | Mapping | Assignment | Preview | Complete

datatype assignmentMode = Auto | Single

record state =
  step :: step
  "file" :: "string option"
  rawData :: "jsobj list"
  columns :: "jsval option list option"
  columnMapping :: "(string \<times> string) list"
  parsedLeads :: "lead list"
  duplicates :: nat
  isProcessing :: bool
  assignmentMode :: assignmentMode
  selectedCaller :: string
  callers :: "jsobj list"

text \<open>The initial values of the \<open>useState\<close> calls.\<close>

definition initialState :: state where
  "initialState =
     \<lparr>step = Upload, file = None, rawData = [], columns = Some [], columnMapping = [],
      parsedLeads = [], duplicates = 0, isProcessing = False,
      assignmentMode = Auto, selectedCaller = [], callers = []\<rparr>"

definition resetState :: "state \<Rightarrow> state" where
  "resetState s =
     s\<lparr>step := Upload, file := None, rawData := [], columns := Some [], columnMapping := [],
       parsedLeads := [], duplicates := 0, isProcessing := False\<rparr>"

text \<open>\<open>handleClose\<close>: the reset, and \<open>onOpenChange(false)\<close> as the second component.\<close>

definition handleClose :: "state \<Rightarrow> state \<times> bool" where
  "handleClose s = (resetState s, False)"

definition processLeads :: "(nat \<Rightarrow> int) \<Rightarrow> state \<Rightarrow> state" where
  "processLeads clock s =
     (let a = processRows clock (columnMapping s) (rawData s) in
      s\<lparr>duplicates := dupCount a, parsedLeads := leads a, step := Preview\<rparr>)"

text \<open>\<open>handleImport\<close>: the records handed to \<open>onImport\<close>, and the new state.\<close>

definition handleImport :: "state \<Rightarrow> lead list \<times> state" where
  "handleImport s = (parsedLeads s, s\<lparr>step := Complete\<rparr>)"

subsection \<open>handleFileChange\<close>

text \<open>What \<open>XLSX.read\<close> and \<open>sheet_to_json\<close> with \<open>header: 1\<close> make of the bytes: an
  exception, or the rows of the first sheet as arrays of cells, a blank cell being a hole.\<close>

datatype readResult = ReadThrows | Sheet "jsval option list list"

text \<open>\<open>r[i]\<close> on an array: a hole and an index out of range read as \<open>undefined\<close>.\<close>

definition arrayAt :: "jsval option list \<Rightarrow> nat \<Rightarrow> jsval" where
  "arrayAt r i =
     (if i < length r then (case r ! i of None \<Rightarrow> Undefined | Some v \<Rightarrow> v) else Undefined)"

text \<open>\<open>headers.map((h, i) => [h, r[i]])\<close>: \<open>map\<close> does not call its function on a hole
  and leaves the hole in the result. A header cell becomes a property key by \<open>String\<close>
  when the object is built.\<close>

definition headerEntries :: "jsval option list \<Rightarrow> jsval option list \<Rightarrow> (string \<times> jsval) option list" where
  "headerEntries headers r =
     map (\<lambda>(i, h). map_option (\<lambda>v. (js_String v, arrayAt r i)) h) (enumerate 0 headers)"

text \<open>\<open>Object.fromEntries\<close> on an array of entries: iterating a hole yields \<open>undefined\<close>,
  which is no entry, and the call throws a TypeError (\<open>None\<close>).\<close>

definition fromEntries :: "(string \<times> jsval) option list \<Rightarrow> jsobj option" where
  "fromEntries es = those es"

definition rowObject :: "jsval option list \<Rightarrow> jsval option list \<Rightarrow> jsobj option" where
  "rowObject headers r = fromEntries (headerEntries headers r)"

text \<open>\<open>rows.map(r => ...)\<close>: the first row object that cannot be built ends the call.\<close>

definition rowObjects :: "jsval option list \<Rightarrow> jsval option list list \<Rightarrow> jsobj list option" where
  "rowObjects headers rows = those (map (rowObject headers) rows)"

text \<open>How the handler ends: it returns at once without a file, its promise rejects when
  \<open>XLSX.read\<close> throws or when a row object cannot be built, and otherwise it runs to its
  end. The row objects are built after \<open>setColumns\<close> and before \<open>setStep\<close>.\<close>

datatype jsError = ReadError | TypeError

datatype outcome = NoFile | Rejected jsError | Done

definition handleFileChange :: "string option \<Rightarrow> readResult \<Rightarrow> state \<Rightarrow> outcome \<times> state" where
  "handleFileChange selectedFile rd s =
     (case selectedFile of
        None \<Rightarrow> (NoFile, s)
      | Some f \<Rightarrow>
          (case rd of
             ReadThrows \<Rightarrow> (Rejected ReadError, s\<lparr>isProcessing := True\<rparr>)
           | Sheet json \<Rightarrow>
               (let headers = (case json of [] \<Rightarrow> None | h # _ \<Rightarrow> Some h);
                    rows = drop 1 json
                in case rowObjects (case headers of None \<Rightarrow> [] | Some h \<Rightarrow> h) rows of
                     None \<Rightarrow> (Rejected TypeError, s\<lparr>isProcessing := True, columns := headers\<rparr>)
                   | Some objs \<Rightarrow>
                       (Done,
                        s\<lparr>columns := headers,
                          rawData := objs,
                          step := Mapping,
                          isProcessing := False\<rparr>))))"

subsection \<open>Notions used to state the properties\<close>

text \<open>The candidate records of a run, in row order: the records of the rows that are not
  rejected.\<close>

definition candidates :: "(nat \<Rightarrow> int) \<Rightarrow> (string \<times> string) list \<Rightarrow> jsobj list \<Rightarrow> lead list" where
  "candidates clock cm rows =
     filter (\<lambda>l. \<not> rejected l) (map (\<lambda>ir. mkLead clock cm (fst ir) (snd ir)) (enumerate 0 rows))"

text \<open>Deduplication as the specification words it: the first record is kept, every later
  record with its identity key is dropped, and so on for the rest.\<close>

fun keepFirst :: "lead list \<Rightarrow> lead list" where
  "keepFirst [] = []"
| "keepFirst (l # ls) = l # keepFirst (filter (\<lambda>m. phoneKey m \<noteq> phoneKey l) ls)"

text \<open>The contents of a record: every field but the per-run identifier and timestamps.\<close>

definition content :: "lead \<Rightarrow> lead" where
  "content l = l\<lparr>leadId := [], createdAt := 0, updatedAt := 0\<rparr>"

text \<open>Two rows agree up to falsy cells on the mapped columns: at each of them they hold
  the same value, or both hold a falsy one.\<close>

definition sameTruthyCells :: "(string \<times> string) list \<Rightarrow> jsobj \<Rightarrow> jsobj \<Rightarrow> bool" where
  "sameTruthyCells cm r1 r2 =
     list_all (\<lambda>kc. getProp r1 (snd kc) = getProp r2 (snd kc)
                    \<or> (falsy (getProp r1 (snd kc)) \<and> falsy (getProp r2 (snd kc)))) cm"

text \<open>A sample clock, one millisecond per read.\<close>

definition tick :: "nat \<Rightarrow> int" where
  "tick k = 1700000000000 + int k"

text \<open>The sheet and the mapping of the specification's scenario.\<close>

definition scenarioSheet :: "jsval option list list" where
  "scenarioSheet =
     map (map Some)
       [[Str ''Full Name'', Str ''Mobile'', Str ''City''],
        [Str ''Asha'', Str ''98765 43210'', Str ''Pune''],
        [Str ''Ravi'', Str ''9876543210'', Str ''Mumbai''],
        [Str [], Str ''9998887777'', Str ''Delhi'']]"

definition scenarioMapping :: "(string \<times> string) list" where
  "scenarioMapping = [(''name'', ''Full Name''), (''phone'', ''Mobile''), (''city'', ''City'')]"

definition scenarioState :: state where
  "scenarioState =
     (snd (handleFileChange (Some ''leads.xlsx'') (Sheet scenarioSheet) initialState))
       \<lparr>columnMapping := scenarioMapping\<rparr>"

text \<open>Sample inputs: a mapping of the enumerated fields and the value field, a row whose
  cells match no vocabulary token and hold no number, a row with a stage in capitals, a
  row with the number 0 in every mapped cell, and the scenario's last row with the
  blank name cell absent.\<close>

definition vocabularyMapping :: "(string \<times> string) list" where
  "vocabularyMapping =
     [(''source'', ''Source''), (''stage'', ''Stage''), (''priority'', ''Priority''),
      (''value'', ''Value'')]"

definition malformedRow :: jsobj where
  "malformedRow =
     [(''Source'', Str ''Billboard''), (''Stage'', Str ''unknown_stage''),
      (''Priority'', Str ''URGENT''), (''Value'', Str ''abc'')]"

definition wonRow :: jsobj where
  "wonRow = [(''Stage'', Str ''WON'')]"

definition zeroRow :: jsobj where
  "zeroRow = [(''Source'', Num 0), (''Stage'', Num 0), (''Priority'', Num 0), (''Value'', Num 0)]"

definition absentNameRow :: jsobj where
  "absentNameRow = [(''Mobile'', Str ''9998887777''), (''City'', Str ''Delhi'')]"

text \<open>A further row of the scenario's columns, with a phone of its own.\<close>

definition meeraRow :: jsobj where
  "meeraRow =
     [(''Full Name'', Str ''Meera''), (''Mobile'', Str ''99988 87777''), (''City'', Str ''Delhi'')]"

text \<open>Sheets for the file handler: a header row alone, and a header row whose second cell
  is blank, followed by one data row.\<close>

definition headerOnlySheet :: "jsval option list list" where
  "headerOnlySheet = [[Some (Str ''Full Name''), None, Some (Str ''Mobile'')]]"

definition blankHeaderSheet :: "jsval option list list" where
  "blankHeaderSheet =
     [[Some (Str ''Full Name''), None, Some (Str ''Mobile'')],
      [Some (Str ''Asha''), Some (Str ''Pune''), Some (Str ''98765 43210'')]]"

subsection \<open>FieldMapper\<close>

text \<open>The source has no \<open>validate\<close> function and no transition into the assignment
  step; of the FieldMapper only the schema \<open>leadFields\<close> with its \<open>required\<close> flags is
  there. The result type of \<open>validate\<close> follows section 4.2 of the specification.\<close>

datatype validation = Ok | MissingRequired "string list"

text \<open>Modelled from the spec: the list \<open>validate\<close> reports (the function is missing from
  the source), the required field keys of \<open>leadFields\<close> that have no mapped column.\<close>

definition missingRequired :: "(string \<times> string) list \<Rightarrow> string list" where
  "missingRequired cm =
     filter (\<lambda>k. map_of cm k = None) (map key (filter required leadFields))"

text \<open>Modelled from the spec: \<open>validate\<close> of section 4.2 (missing from the source), which
  is \<open>ok\<close> when no required field is missing and reports the missing ones otherwise.\<close>

definition validate :: "(string \<times> string) list \<Rightarrow> validation" where
  "validate cm = (if missingRequired cm = [] then Ok else MissingRequired (missingRequired cm))"

text \<open>Modelled from the spec: the transition from mapping to assignment of section 4.5
  (missing from the source), taken only when \<open>validate\<close> reports no missing required
  field.\<close>

definition mappingToAssignment :: "state \<Rightarrow> state" where
  "mappingToAssignment s =
     (if step s = Mapping \<and> validate (columnMapping s) = Ok then s\<lparr>step := Assignment\<rparr> else s)"

section \<open>Properties\<close>

subsection \<open>Auxiliary facts\<close>

lemma status_applyField: "status (applyField row kc l) = status l"
  by (simp add: applyField_def Let_def)

lemma status_fold_applyField: "status (fold (applyField row) cm l) = status l"
  by (induction cm arbitrary: l) (simp_all add: status_applyField)

lemma status_mkLead: "status (mkLead clock cm i row) = ''active''"
  by (simp add: mkLead_def status_fold_applyField defaultLead_def)

lemma admit_count:
  "length (leads (admit l a)) + dupCount (admit l a) + (if rejected l then 1 else 0)
     = length (leads a) + dupCount a + 1"
  by (simp add: admit_def)

lemma fold_processRow_count:
  "length (leads (fold (processRow clock cm) irs a)) + dupCount (fold (processRow clock cm) irs a)
     + length (filter (\<lambda>ir. rejected (mkLead clock cm (fst ir) (snd ir))) irs)
   = length (leads a) + dupCount a + length irs"
proof (induction irs arbitrary: a)
  case Nil
  then show ?case by simp
next
  case (Cons ir irs)
  have "length (leads (processRow clock cm ir a)) + dupCount (processRow clock cm ir a)
          + (if rejected (mkLead clock cm (fst ir) (snd ir)) then 1 else 0)
        = length (leads a) + dupCount a + 1"
    unfolding processRow_def by (rule admit_count)
  with Cons.IH [of "processRow clock cm ir a"] show ?case by (simp split: if_splits)
qed

lemma admit_keeps_accepted:
  "\<forall>m \<in> set (leads a). \<not> rejected m \<Longrightarrow> \<forall>m \<in> set (leads (admit l a)). \<not> rejected m"
  by (simp add: admit_def)

lemma fold_processRow_accepted:
  "\<forall>m \<in> set (leads a). \<not> rejected m \<Longrightarrow>
   \<forall>m \<in> set (leads (fold (processRow clock cm) irs a)). \<not> rejected m"
proof (induction irs arbitrary: a)
  case Nil
  then show ?case by simp
next
  case (Cons ir irs)
  from Cons.prems have "\<forall>m \<in> set (leads (processRow clock cm ir a)). \<not> rejected m"
    unfolding processRow_def by (rule admit_keeps_accepted)
  then show ?case using Cons.IH by simp
qed

lemma fold_admit_keepFirst:
  "\<forall>c \<in> set cs. \<not> rejected c \<Longrightarrow>
   leads (fold admit cs a) = leads a @ keepFirst (filter (\<lambda>c. phoneKey c \<notin> phoneSet a) cs)
   \<and> dupCount (fold admit cs a) + length (leads (fold admit cs a))
       = dupCount a + length (leads a) + length cs"
proof (induction cs arbitrary: a)
  case Nil
  then show ?case by simp
next
  case (Cons c cs)
  then have nr: "\<not> rejected c" and rest: "\<forall>c \<in> set cs. \<not> rejected c" by simp_all
  show ?case
  proof (cases "phoneKey c \<in> phoneSet a")
    case True
    then have "admit c a = a\<lparr>dupCount := dupCount a + 1\<rparr>"
      using nr by (simp add: admit_def)
    then show ?thesis using Cons.IH [OF rest, of "a\<lparr>dupCount := dupCount a + 1\<rparr>"] True
      by auto
  next
    case False
    let ?a' = "a\<lparr>phoneSet := insert (phoneKey c) (phoneSet a), leads := leads a @ [c]\<rparr>"
    have st: "admit c a = ?a'"
      using nr False by (simp add: admit_def)
    have flt: "filter (\<lambda>m. phoneKey m \<noteq> phoneKey c) (filter (\<lambda>c. phoneKey c \<notin> phoneSet a) cs)
             = filter (\<lambda>m. phoneKey m \<notin> phoneSet ?a') cs"
      by (induction cs) auto
    show ?thesis using Cons.IH [OF rest, of ?a'] False st flt
      by auto
  qed
qed

lemma fold_admit_filter:
  "fold admit (filter (\<lambda>l. \<not> rejected l) ls) a = fold admit ls a"
  by (induction ls arbitrary: a) (simp_all add: admit_def)

lemma processRows_candidates:
  "processRows clock cm rows = fold admit (candidates clock cm rows) emptyAcc"
proof -
  have "fold (processRow clock cm) irs a
        = fold admit (map (\<lambda>ir. mkLead clock cm (fst ir) (snd ir)) irs) a" for irs a
    by (induction irs arbitrary: a) (simp_all add: processRow_def)
  then show ?thesis
    by (simp add: processRows_def candidates_def fold_admit_filter)
qed

lemma subseq_keepFirst: "subseq (keepFirst ls) ls"
proof (induction ls rule: keepFirst.induct)
  case 1
  then show ?case by simp
next
  case (2 l ls)
  have "subseq (filter (\<lambda>m. phoneKey m \<noteq> phoneKey l) ls) ls" by simp
  with 2 have "subseq (keepFirst (filter (\<lambda>m. phoneKey m \<noteq> phoneKey l) ls)) ls"
    by (rule subseq_order.trans)
  then show ?case by simp
qed

lemma set_keepFirst_subset: "set (keepFirst ls) \<subseteq> set ls"
proof
  fix x
  assume "x \<in> set (keepFirst ls)"
  with subseq_keepFirst [of ls] obtain y where "y \<in> set ls" and "x = y"
    by (rule list_emb_set)
  then show "x \<in> set ls" by simp
qed

lemma keys_keepFirst: "phoneKey ` set (keepFirst ls) = phoneKey ` set ls"
proof (induction ls rule: keepFirst.induct)
  case 1
  then show ?case by simp
next
  case (2 l ls)
  then show ?case by auto
qed

lemma distinct_keepFirst: "distinct (map phoneKey (keepFirst ls))"
proof (induction ls rule: keepFirst.induct)
  case 1
  then show ?case by simp
next
  case (2 l ls)
  have "phoneKey l \<notin> phoneKey ` set (filter (\<lambda>m. phoneKey m \<noteq> phoneKey l) ls)" by auto
  then have "phoneKey l \<notin> phoneKey ` set (keepFirst (filter (\<lambda>m. phoneKey m \<noteq> phoneKey l) ls))"
    using keys_keepFirst [of "filter (\<lambda>m. phoneKey m \<noteq> phoneKey l) ls"] by simp
  with 2 show ?case by simp
qed

lemma find_keepFirst:
  "m \<in> set (keepFirst ls) \<Longrightarrow> find (\<lambda>c. phoneKey c = phoneKey m) ls = Some m"
proof (induction ls rule: keepFirst.induct)
  case 1
  then show ?case by simp
next
  case (2 l ls)
  show ?case
  proof (cases "m = l")
    case True
    then show ?thesis by simp
  next
    case False
    with "2.prems" have mem: "m \<in> set (keepFirst (filter (\<lambda>x. phoneKey x \<noteq> phoneKey l) ls))"
      by simp
    then have "m \<in> set (filter (\<lambda>x. phoneKey x \<noteq> phoneKey l) ls)"
      using set_keepFirst_subset by blast
    then have ne: "phoneKey l \<noteq> phoneKey m" by auto
    have "find (\<lambda>c. phoneKey c = phoneKey m) (filter (\<lambda>x. phoneKey x \<noteq> phoneKey l) ls)
          = find (\<lambda>c. phoneKey c = phoneKey m) ls"
      using ne by (induction ls) auto
    with "2.IH" [OF mem] ne show ?thesis by simp
  qed
qed

lemma applyField_other_key:
  "(fst kc \<noteq> ''name'' \<longrightarrow> name (applyField row kc l) = name l)
   \<and> (fst kc \<noteq> ''phone'' \<longrightarrow> phone (applyField row kc l) = phone l)
   \<and> (fst kc \<noteq> ''value'' \<longrightarrow> value (applyField row kc l) = value l)
   \<and> (fst kc \<noteq> ''source'' \<longrightarrow> source (applyField row kc l) = source l)
   \<and> (fst kc \<noteq> ''stage'' \<longrightarrow> stage (applyField row kc l) = stage l)
   \<and> (fst kc \<noteq> ''priority'' \<longrightarrow> priority (applyField row kc l) = priority l)"
  by (simp add: applyField_def Let_def)

lemma fold_applyField_other_keys:
  "k \<notin> fst ` set cm \<Longrightarrow>
   (k = ''name'' \<longrightarrow> name (fold (applyField row) cm l) = name l)
   \<and> (k = ''phone'' \<longrightarrow> phone (fold (applyField row) cm l) = phone l)
   \<and> (k = ''value'' \<longrightarrow> value (fold (applyField row) cm l) = value l)
   \<and> (k = ''source'' \<longrightarrow> source (fold (applyField row) cm l) = source l)
   \<and> (k = ''stage'' \<longrightarrow> stage (fold (applyField row) cm l) = stage l)
   \<and> (k = ''priority'' \<longrightarrow> priority (fold (applyField row) cm l) = priority l)"
proof (induction cm arbitrary: l)
  case Nil
  then show ?case by simp
next
  case (Cons kc cm)
  then have "fst kc \<noteq> k" and "k \<notin> fst ` set cm" by auto
  with Cons.IH [of "applyField row kc l"] applyField_other_key [of kc row l]
  show ?case by auto
qed

lemma distinct_keys_split:
  assumes "distinct (map fst cm)" and "(k, col) \<in> set cm"
  obtains xs ys where "cm = xs @ (k, col) # ys" and "k \<notin> fst ` set xs" and "k \<notin> fst ` set ys"
proof -
  from assms(2) obtain xs ys where cm: "cm = xs @ (k, col) # ys"
    by (auto dest: split_list)
  with assms(1) have "k \<notin> fst ` set xs" and "k \<notin> fst ` set ys" by auto
  with cm show ?thesis by (rule that)
qed


lemma applyField_falsy: "falsy (getProp row col) \<Longrightarrow> applyField row (k, col) l = l"
  by (simp add: applyField_def)

lemma mkLead_at_key:
  assumes "distinct (map fst cm)" and "(k, col) \<in> set cm"
  obtains l0 ys where
    "mkLead clock cm i row = fold (applyField row) ys (applyField row (k, col) l0)"
    and "k \<notin> fst ` set ys"
    and "k = ''name'' \<longrightarrow> name l0 = None"
    and "k = ''phone'' \<longrightarrow> phone l0 = None"
    and "k = ''value'' \<longrightarrow> value l0 = None"
    and "k = ''source'' \<longrightarrow> source l0 = None"
    and "k = ''stage'' \<longrightarrow> stage l0 = Str ''new''"
    and "k = ''priority'' \<longrightarrow> priority l0 = Str ''warm''"
proof -
  from assms obtain xs ys where cm: "cm = xs @ (k, col) # ys"
    and xs: "k \<notin> fst ` set xs" and ys: "k \<notin> fst ` set ys"
    by (rule distinct_keys_split)
  let ?l0 = "fold (applyField row) xs (defaultLead clock i)"
  have "mkLead clock cm i row = fold (applyField row) ys (applyField row (k, col) ?l0)"
    by (simp add: mkLead_def cm)
  moreover note ys
  moreover have "k = ''name'' \<longrightarrow> name ?l0 = None"
    and "k = ''phone'' \<longrightarrow> phone ?l0 = None"
    and "k = ''value'' \<longrightarrow> value ?l0 = None"
    and "k = ''source'' \<longrightarrow> source ?l0 = None"
    and "k = ''stage'' \<longrightarrow> stage ?l0 = Str ''new''"
    and "k = ''priority'' \<longrightarrow> priority ?l0 = Str ''warm''"
    using fold_applyField_other_keys [OF xs, of row "defaultLead clock i"]
    by (simp_all add: defaultLead_def)
  ultimately show ?thesis by (rule that)
qed

lemma value_mkLead:
  assumes "distinct (map fst cm)" and "(''value'', col) \<in> set cm"
  shows "value (mkLead clock cm i row)
         = (if falsy (getProp row col) then None
            else Some (numOrZero (js_Number (getProp row col))))"
proof -
  from assms obtain l0 ys where
    eq: "mkLead clock cm i row = fold (applyField row) ys (applyField row (''value'', col) l0)"
    and ys: "''value'' \<notin> fst ` set ys" and l0: "value l0 = None"
    by (rule mkLead_at_key) simp
  have "value (mkLead clock cm i row) = value (applyField row (''value'', col) l0)"
    using fold_applyField_other_keys [OF ys] by (simp add: eq)
  then show ?thesis using l0 by (simp add: applyField_def Let_def)
qed

lemma source_mkLead:
  assumes "distinct (map fst cm)" and "(''source'', col) \<in> set cm"
  shows "source (mkLead clock cm i row)
         = (if falsy (getProp row col) then None
            else Some (js_or (getProp sourceMapping (toLowerCase (js_String (getProp row col))))
                             (Str ''other'')))"
proof -
  from assms obtain l0 ys where
    eq: "mkLead clock cm i row = fold (applyField row) ys (applyField row (''source'', col) l0)"
    and ys: "''source'' \<notin> fst ` set ys" and l0: "source l0 = None"
    by (rule mkLead_at_key) simp
  have "source (mkLead clock cm i row) = source (applyField row (''source'', col) l0)"
    using fold_applyField_other_keys [OF ys] by (simp add: eq)
  then show ?thesis using l0 by (simp add: applyField_def Let_def)
qed

lemma stage_mkLead:
  assumes "distinct (map fst cm)" and "(''stage'', col) \<in> set cm"
  shows "stage (mkLead clock cm i row)
         = (if falsy (getProp row col) then Str ''new''
            else js_or (getProp stageMapping (toLowerCase (js_String (getProp row col))))
                       (Str ''new''))"
proof -
  from assms obtain l0 ys where
    eq: "mkLead clock cm i row = fold (applyField row) ys (applyField row (''stage'', col) l0)"
    and ys: "''stage'' \<notin> fst ` set ys" and l0: "stage l0 = Str ''new''"
    by (rule mkLead_at_key) simp
  have "stage (mkLead clock cm i row) = stage (applyField row (''stage'', col) l0)"
    using fold_applyField_other_keys [OF ys] by (simp add: eq)
  then show ?thesis using l0 by (simp add: applyField_def Let_def)
qed

lemma priority_mkLead:
  assumes "distinct (map fst cm)" and "(''priority'', col) \<in> set cm"
  shows "priority (mkLead clock cm i row)
         = (if falsy (getProp row col) then Str ''warm''
            else js_or (getProp priorityMapping (toLowerCase (js_String (getProp row col))))
                       (Str ''warm''))"
proof -
  from assms obtain l0 ys where
    eq: "mkLead clock cm i row = fold (applyField row) ys (applyField row (''priority'', col) l0)"
    and ys: "''priority'' \<notin> fst ` set ys" and l0: "priority l0 = Str ''warm''"
    by (rule mkLead_at_key) simp
  have "priority (mkLead clock cm i row) = priority (applyField row (''priority'', col) l0)"
    using fold_applyField_other_keys [OF ys] by (simp add: eq)
  then show ?thesis using l0 by (simp add: applyField_def Let_def)
qed

lemma name_mkLead:
  assumes "distinct (map fst cm)" and "(''name'', col) \<in> set cm"
  shows "name (mkLead clock cm i row)
         = (if falsy (getProp row col) then None else Some (js_String (getProp row col)))"
proof -
  from assms obtain l0 ys where
    eq: "mkLead clock cm i row = fold (applyField row) ys (applyField row (''name'', col) l0)"
    and ys: "''name'' \<notin> fst ` set ys" and l0: "name l0 = None"
    by (rule mkLead_at_key) simp
  have "name (mkLead clock cm i row) = name (applyField row (''name'', col) l0)"
    using fold_applyField_other_keys [OF ys] by (simp add: eq)
  then show ?thesis using l0 by (simp add: applyField_def Let_def)
qed

lemma phone_mkLead:
  assumes "distinct (map fst cm)" and "(''phone'', col) \<in> set cm"
  shows "phone (mkLead clock cm i row)
         = (if falsy (getProp row col) then None else Some (js_String (getProp row col)))"
proof -
  from assms obtain l0 ys where
    eq: "mkLead clock cm i row = fold (applyField row) ys (applyField row (''phone'', col) l0)"
    and ys: "''phone'' \<notin> fst ` set ys" and l0: "phone l0 = None"
    by (rule mkLead_at_key) simp
  have "phone (mkLead clock cm i row) = phone (applyField row (''phone'', col) l0)"
    using fold_applyField_other_keys [OF ys] by (simp add: eq)
  then show ?thesis using l0 by (simp add: applyField_def Let_def)
qed

lemma getProp_no_entry:
  "t \<notin> fst ` set tbl \<Longrightarrow> t \<notin> set objectPrototypeNames \<Longrightarrow> getProp tbl t = Undefined"
proof -
  assume a: "t \<notin> fst ` set tbl" and b: "t \<notin> set objectPrototypeNames"
  from a have "t \<notin> fst ` set (rev tbl)" by simp
  then have "map_of (rev tbl) t = None" by (simp add: map_of_eq_None_iff)
  with b show ?thesis by (simp add: getProp_def)
qed

lemma stringToNumber_NaN_nonempty: "stringToNumber s = NaN \<Longrightarrow> s \<noteq> []"
proof
  assume "stringToNumber s = NaN" and "s = []"
  then show False by (simp add: stringToNumber_def trimSpaces_def)
qed


lemma content_applyField: "content (applyField row kc l) = applyField row kc (content l)"
  by (simp add: content_def applyField_def Let_def)

lemma content_fold_applyField:
  "content (fold (applyField row) cm l) = fold (applyField row) cm (content l)"
  by (induction cm arbitrary: l) (simp_all add: content_applyField)

lemma content_mkLead: "content (mkLead c1 cm i row) = content (mkLead c2 cm j row)"
  by (simp add: mkLead_def content_fold_applyField) (simp add: content_def defaultLead_def)

lemma rejected_content: "rejected (content l) = rejected l"
  by (simp add: rejected_def content_def)

lemma phoneKey_content: "phoneKey (content l) = phoneKey l"
  by (simp add: phoneKey_def content_def)

lemma admit_content:
  assumes "content l = content m"
    and "map content (leads a) = map content (leads b)"
    and "phoneSet a = phoneSet b" and "dupCount a = dupCount b"
  shows "map content (leads (admit l a)) = map content (leads (admit m b))
         \<and> phoneSet (admit l a) = phoneSet (admit m b)
         \<and> dupCount (admit l a) = dupCount (admit m b)"
proof -
  from assms(1) have "rejected l = rejected m" and "phoneKey l = phoneKey m"
    by (metis rejected_content, metis phoneKey_content)
  with assms show ?thesis by (simp add: admit_def)
qed

lemma fold_processRow_content:
  assumes "map content (leads a) = map content (leads b)"
    and "phoneSet a = phoneSet b" and "dupCount a = dupCount b"
  shows "map content (leads (fold (processRow c1 cm) irs a))
           = map content (leads (fold (processRow c2 cm) irs b))
         \<and> dupCount (fold (processRow c1 cm) irs a) = dupCount (fold (processRow c2 cm) irs b)"
  using assms
proof (induction irs arbitrary: a b)
  case Nil
  then show ?case by simp
next
  case (Cons ir irs)
  have "content (mkLead c1 cm (fst ir) (snd ir)) = content (mkLead c2 cm (fst ir) (snd ir))"
    by (rule content_mkLead)
  from admit_content [OF this Cons.prems]
  have "map content (leads (processRow c1 cm ir a)) = map content (leads (processRow c2 cm ir b))"
    and "phoneSet (processRow c1 cm ir a) = phoneSet (processRow c2 cm ir b)"
    and "dupCount (processRow c1 cm ir a) = dupCount (processRow c2 cm ir b)"
    by (simp_all add: processRow_def)
  then show ?case using Cons.IH by simp
qed

lemma processRows_content:
  "map content (leads (processRows c1 cm rows)) = map content (leads (processRows c2 cm rows))
   \<and> dupCount (processRows c1 cm rows) = dupCount (processRows c2 cm rows)"
  unfolding processRows_def by (rule fold_processRow_content) simp_all

lemma sameTruthy_applyField:
  "getProp r1 (snd kc) = getProp r2 (snd kc)
     \<or> (falsy (getProp r1 (snd kc)) \<and> falsy (getProp r2 (snd kc)))
   \<Longrightarrow> applyField r1 kc l = applyField r2 kc l"
proof (cases "falsy (getProp r1 (snd kc))")
  case True
  assume "getProp r1 (snd kc) = getProp r2 (snd kc)
     \<or> (falsy (getProp r1 (snd kc)) \<and> falsy (getProp r2 (snd kc)))"
  with True have "falsy (getProp r2 (snd kc))" by auto
  with True show ?thesis by (simp add: applyField_def)
next
  case False
  assume "getProp r1 (snd kc) = getProp r2 (snd kc)
     \<or> (falsy (getProp r1 (snd kc)) \<and> falsy (getProp r2 (snd kc)))"
  with False have "getProp r1 (snd kc) = getProp r2 (snd kc)" by auto
  then show ?thesis by (simp add: applyField_def)
qed

lemma sameTruthy_mkLead:
  "sameTruthyCells cm r1 r2 \<Longrightarrow> mkLead clock cm i r1 = mkLead clock cm i r2"
proof -
  assume "sameTruthyCells cm r1 r2"
  then have "fold (applyField r1) cm l = fold (applyField r2) cm l" for l
  proof (induction cm arbitrary: l)
    case Nil
    then show ?case by simp
  next
    case (Cons kc cm)
    then have "applyField r1 kc l = applyField r2 kc l" and "sameTruthyCells cm r1 r2"
      by (simp_all add: sameTruthyCells_def sameTruthy_applyField)
    with Cons.IH show ?case by simp
  qed
  then show ?thesis by (simp add: mkLead_def)
qed


subsection \<open>The scenario of the specification, evaluated\<close>

lemmas str_eval = toLowerCase_def lowerChar_def char_of_def bit_iff_odd stripSpaces_def isSpace_def

lemmas lead_eval = mkLead_def applyField_def getProp_def objectPrototypeNames_def
  rejected_def unset_def phoneKey_def js_or_def

lemma scenario_rows:
  "rawData scenarioState =
     [[(''Full Name'', Str ''Asha''), (''Mobile'', Str ''98765 43210''), (''City'', Str ''Pune'')],
      [(''Full Name'', Str ''Ravi''), (''Mobile'', Str ''9876543210''), (''City'', Str ''Mumbai'')],
      [(''Full Name'', Str []), (''Mobile'', Str ''9998887777''), (''City'', Str ''Delhi'')]]"
  by (simp add: scenarioState_def handleFileChange_def scenarioSheet_def rowObjects_def
        rowObject_def fromEntries_def headerEntries_def arrayAt_def)

lemma scenario_lead0:
  "mkLead clock scenarioMapping 0 (rawData scenarioState ! 0)
     = (defaultLead clock 0)\<lparr>name := Some ''Asha'', phone := Some ''98765 43210'',
                               city := Some ''Pune''\<rparr>"
  by (simp add: scenario_rows scenarioMapping_def lead_eval)

lemma scenario_lead1:
  "mkLead clock scenarioMapping (Suc 0) (rawData scenarioState ! Suc 0)
     = (defaultLead clock (Suc 0))\<lparr>name := Some ''Ravi'', phone := Some ''9876543210'',
                               city := Some ''Mumbai''\<rparr>"
  by (simp add: scenario_rows scenarioMapping_def lead_eval)

lemma scenario_lead2:
  "mkLead clock scenarioMapping 2 (rawData scenarioState ! 2)
     = (defaultLead clock 2)\<lparr>phone := Some ''9998887777'', city := Some ''Delhi''\<rparr>"
  by (simp add: scenario_rows scenarioMapping_def lead_eval)

lemma scenario_keys:
  "phoneKey (mkLead clock scenarioMapping 0 (rawData scenarioState ! 0)) = ''9876543210''"
  "phoneKey (mkLead clock scenarioMapping (Suc 0) (rawData scenarioState ! Suc 0)) = ''9876543210''"
  by (simp_all add: scenario_lead0 scenario_lead1 phoneKey_def str_eval)

lemma scenario_rejected:
  "\<not> rejected (mkLead clock scenarioMapping 0 (rawData scenarioState ! 0))"
  "\<not> rejected (mkLead clock scenarioMapping (Suc 0) (rawData scenarioState ! Suc 0))"
  "rejected (mkLead clock scenarioMapping 2 (rawData scenarioState ! 2))"
  by (simp_all add: scenario_lead0 scenario_lead1 scenario_lead2 rejected_def unset_def
        defaultLead_def)

lemma scenario_enumerate:
  "enumerate 0 (rawData scenarioState)
     = [(0, rawData scenarioState ! 0), (Suc 0, rawData scenarioState ! Suc 0),
        (2, rawData scenarioState ! 2)]"
  by (simp add: scenario_rows)

lemma scenario_processRows:
  "processRows clock scenarioMapping (rawData scenarioState)
     = \<lparr>leads = [mkLead clock scenarioMapping 0 (rawData scenarioState ! 0)],
        phoneSet = {''9876543210''}, dupCount = 1\<rparr>"
  unfolding processRows_def scenario_enumerate
  by (simp add: processRow_def admit_def scenario_keys scenario_rejected emptyAcc_def)

subsection \<open>Rejected rows and the row count\<close>

lemma scenario_columnMapping: "columnMapping scenarioState = scenarioMapping"
  by (simp add: scenarioState_def)

lemma processLeads_fields:
  "parsedLeads (processLeads clock s) = leads (processRows clock (columnMapping s) (rawData s))"
  "duplicates (processLeads clock s) = dupCount (processRows clock (columnMapping s) (rawData s))"
  "step (processLeads clock s) = Preview"
  "rawData (processLeads clock s) = rawData s"
  "columnMapping (processLeads clock s) = columnMapping s"
  by (simp_all add: processLeads_def Let_def)

lemma processRows_count:
  "length (filter (\<lambda>ir. rejected (mkLead clock cm (fst ir) (snd ir))) (enumerate 0 rows))
     + dupCount (processRows clock cm rows) + length (leads (processRows clock cm rows))
   = length rows"
  using fold_processRow_count [of clock cm "enumerate 0 rows" emptyAcc]
  by (simp add: processRows_def emptyAcc_def)

lemma processRows_accepted:
  "\<forall>m \<in> set (leads (processRows clock cm rows)). \<not> rejected m"
  unfolding processRows_def by (rule fold_processRow_accepted) (simp add: emptyAcc_def)

text \<open>
  C1. For every row sequence and column mapping, the rows whose record has \<open>name\<close> or
  \<open>phone\<close> unset after coercion, plus the duplicate count, plus the length of the final
  result, make up the number of input rows; and the record of such a row is not in the
  final result.
\<close>

theorem rejected_rows_accounted:
  "length (filter (\<lambda>ir. rejected (mkLead clock (columnMapping s) (fst ir) (snd ir)))
            (enumerate 0 (rawData s)))
     + duplicates (processLeads clock s) + length (parsedLeads (processLeads clock s))
   = length (rawData s)
   \<and> (\<forall>i < length (rawData s).
         rejected (mkLead clock (columnMapping s) i (rawData s ! i)) \<longrightarrow>
         mkLead clock (columnMapping s) i (rawData s ! i)
           \<notin> set (parsedLeads (processLeads clock s)))"
proof
  show "length (filter (\<lambda>ir. rejected (mkLead clock (columnMapping s) (fst ir) (snd ir)))
            (enumerate 0 (rawData s)))
     + duplicates (processLeads clock s) + length (parsedLeads (processLeads clock s))
   = length (rawData s)"
    by (simp only: processLeads_fields processRows_count)
next
  have "\<forall>m \<in> set (parsedLeads (processLeads clock s)). \<not> rejected m"
    unfolding processLeads_fields by (rule processRows_accepted)
  then show "\<forall>i < length (rawData s).
         rejected (mkLead clock (columnMapping s) i (rawData s ! i)) \<longrightarrow>
         mkLead clock (columnMapping s) i (rawData s ! i)
           \<notin> set (parsedLeads (processLeads clock s))"
    by blast
qed

theorem rejected_rows_accounted_witness:
  "rejected (mkLead tick scenarioMapping 2 (rawData scenarioState ! 2))
   \<and> mkLead tick scenarioMapping 2 (rawData scenarioState ! 2)
       \<notin> set (parsedLeads (processLeads tick scenarioState))
   \<and> length (filter (\<lambda>ir. rejected (mkLead tick scenarioMapping (fst ir) (snd ir)))
               (enumerate 0 (rawData scenarioState)))
       + duplicates (processLeads tick scenarioState)
       + length (parsedLeads (processLeads tick scenarioState)) = 3"
proof -
  have len: "length (rawData scenarioState) = 3" by (simp add: scenario_rows)
  have rej: "rejected (mkLead tick scenarioMapping 2 (rawData scenarioState ! 2))"
    by (rule scenario_rejected)
  from rejected_rows_accounted [of tick scenarioState] len rej
  show ?thesis by (auto simp add: scenario_columnMapping)
qed

subsection \<open>Deduplication\<close>

lemma of_char_nat_eq: "(of_char c :: nat) = n \<Longrightarrow> c = char_of n"
  using char_of_char [of c, where ?'a = nat] by simp

lemma isSpace_chars:
  "isSpace c \<longleftrightarrow> c \<in> {CHR 0x09, CHR 0x0A, CHR 0x0B, CHR 0x0C, CHR 0x0D, CHR 0x20, CHR 0xA0}"
proof
  assume "isSpace c"
  then have "(of_char c :: nat) = 9 \<or> (of_char c :: nat) = 10 \<or> (of_char c :: nat) = 11
      \<or> (of_char c :: nat) = 12 \<or> (of_char c :: nat) = 13 \<or> (of_char c :: nat) = 32
      \<or> (of_char c :: nat) = 160"
    by (simp add: isSpace_def)
  then have "c = char_of (9 :: nat) \<or> c = char_of (10 :: nat) \<or> c = char_of (11 :: nat)
      \<or> c = char_of (12 :: nat) \<or> c = char_of (13 :: nat) \<or> c = char_of (32 :: nat)
      \<or> c = char_of (160 :: nat)"
    by (blast dest: of_char_nat_eq)
  then show "c \<in> {CHR 0x09, CHR 0x0A, CHR 0x0B, CHR 0x0C, CHR 0x0D, CHR 0x20, CHR 0xA0}"
    by (simp add: char_of_def bit_iff_odd)
next
  assume "c \<in> {CHR 0x09, CHR 0x0A, CHR 0x0B, CHR 0x0C, CHR 0x0D, CHR 0x20, CHR 0xA0}"
  then show "isSpace c" by (auto simp add: isSpace_def)
qed

lemma phoneKey_explicit:
  "phoneKey l =
     (case phone l of
        None \<Rightarrow> []
      | Some p \<Rightarrow>
          filter (\<lambda>c. c \<notin> {CHR 0x09, CHR 0x0A, CHR 0x0B, CHR 0x0C, CHR 0x0D, CHR 0x20, CHR 0xA0}) p)"
  by (simp add: phoneKey_def stripSpaces_def isSpace_chars split: option.splits)

lemma accepted_has_phone: "\<not> rejected l \<Longrightarrow> \<exists>p. phone l = Some p \<and> p \<noteq> []"
  by (auto simp add: rejected_def unset_def split: option.splits)

lemma find_first_kept:
  "find (\<lambda>d. phoneKey d = phoneKey c) ls = Some c \<Longrightarrow> c \<in> set (keepFirst ls)"
proof (induction ls rule: keepFirst.induct)
  case 1
  then show ?case by simp
next
  case (2 l ls)
  show ?case
  proof (cases "phoneKey l = phoneKey c")
    case True
    with "2.prems" show ?thesis by simp
  next
    case False
    with "2.prems" have fnd: "find (\<lambda>d. phoneKey d = phoneKey c) ls = Some c" by simp
    have "find (\<lambda>d. phoneKey d = phoneKey c) (filter (\<lambda>m. phoneKey m \<noteq> phoneKey l) ls)
          = find (\<lambda>d. phoneKey d = phoneKey c) ls"
      using False by (induction ls) auto
    with fnd "2.IH" show ?thesis by simp
  qed
qed

lemma admit_pair:
  assumes "\<not> rejected a" and "\<not> rejected b"
  shows "leads (fold admit [a, b] emptyAcc) = (if phoneKey a = phoneKey b then [a] else [a, b])"
    and "dupCount (fold admit [a, b] emptyAcc) = (if phoneKey a = phoneKey b then 1 else 0)"
  using assms by (simp_all add: admit_def emptyAcc_def)

lemma meera_lead:
  "mkLead clock scenarioMapping 3 meeraRow
     = (defaultLead clock 3)\<lparr>name := Some ''Meera'', phone := Some ''99988 87777'',
                               city := Some ''Delhi''\<rparr>"
  by (simp add: meeraRow_def scenarioMapping_def lead_eval)

lemma meera_key: "phoneKey (mkLead clock scenarioMapping 3 meeraRow) = ''9998887777''"
  by (simp add: meera_lead phoneKey_def str_eval)

lemma meera_accepted: "\<not> rejected (mkLead clock scenarioMapping 3 meeraRow)"
  by (simp add: meera_lead rejected_def unset_def)

text \<open>
  C2. The identity key of a record is its phone with every whitespace character (TAB, LF,
  VT, FF, CR, space, no-break space) removed. The loop of \<open>processLeads\<close> is the
  deduplication of the candidate records on that key: its result is \<open>keepFirst\<close> of the
  candidates, and the duplicate count is the number of candidates dropped. On every
  sequence of candidate records (records that passed the name and phone check) the
  deduplication returns the first occurrence of each key in input order: a subsequence of
  the input with distinct keys that covers every key of the input; a record is kept exactly
  when it is the first of the input with its key, however complete a later one is; and
  \<open>dupCount\<close> grows by one per record dropped. Of two candidates with different keys
  both are kept, in their order; of two with the same key the first alone.
\<close>

theorem first_occurrence_wins:
  "parsedLeads (processLeads clock s) = keepFirst (candidates clock (columnMapping s) (rawData s))
   \<and> duplicates (processLeads clock s) + length (parsedLeads (processLeads clock s))
       = length (candidates clock (columnMapping s) (rawData s))
   \<and> phoneKey l =
       (case phone l of
          None \<Rightarrow> []
        | Some p \<Rightarrow>
            filter (\<lambda>c. c \<notin> {CHR 0x09, CHR 0x0A, CHR 0x0B, CHR 0x0C, CHR 0x0D, CHR 0x20, CHR 0xA0}) p)
   \<and> ((\<forall>c \<in> set cs. \<not> rejected c) \<longrightarrow>
        leads (fold admit cs emptyAcc) = keepFirst cs
        \<and> dupCount (fold admit cs emptyAcc) + length (keepFirst cs) = length cs
        \<and> subseq (keepFirst cs) cs
        \<and> distinct (map phoneKey (keepFirst cs))
        \<and> phoneKey ` set (keepFirst cs) = phoneKey ` set cs
        \<and> (\<forall>m \<in> set (keepFirst cs). find (\<lambda>c. phoneKey c = phoneKey m) cs = Some m)
        \<and> (\<forall>c \<in> set cs. \<exists>p. phone c = Some p \<and> p \<noteq> [])
        \<and> (\<forall>c \<in> set cs.
              c \<in> set (leads (fold admit cs emptyAcc))
              \<longleftrightarrow> find (\<lambda>d. phoneKey d = phoneKey c) cs = Some c))
   \<and> (\<not> rejected a \<and> \<not> rejected b \<and> phoneKey a \<noteq> phoneKey b \<longrightarrow>
        leads (fold admit [a, b] emptyAcc) = [a, b]
        \<and> dupCount (fold admit [a, b] emptyAcc) = 0)
   \<and> (\<not> rejected a \<and> \<not> rejected b \<and> phoneKey a = phoneKey b \<longrightarrow>
        leads (fold admit [a, b] emptyAcc) = [a]
        \<and> dupCount (fold admit [a, b] emptyAcc) = 1)"
proof (intro conjI impI)
  let ?cands = "candidates clock (columnMapping s) (rawData s)"
  have ok: "\<forall>c \<in> set ?cands. \<not> rejected c" by (simp add: candidates_def)
  have run: "processRows clock (columnMapping s) (rawData s) = fold admit ?cands emptyAcc"
    by (rule processRows_candidates)
  from fold_admit_keepFirst [OF ok, of emptyAcc]
  show "parsedLeads (processLeads clock s) = keepFirst ?cands"
    and "duplicates (processLeads clock s) + length (parsedLeads (processLeads clock s))
       = length ?cands"
    by (auto simp add: processLeads_fields run emptyAcc_def)
next
  show "phoneKey l =
       (case phone l of
          None \<Rightarrow> []
        | Some p \<Rightarrow>
            filter (\<lambda>c. c \<notin> {CHR 0x09, CHR 0x0A, CHR 0x0B, CHR 0x0C, CHR 0x0D, CHR 0x20, CHR 0xA0}) p)"
    by (rule phoneKey_explicit)
next
  assume ok: "\<forall>c \<in> set cs. \<not> rejected c"
  from fold_admit_keepFirst [OF ok, of emptyAcc]
  show res: "leads (fold admit cs emptyAcc) = keepFirst cs"
    and "dupCount (fold admit cs emptyAcc) + length (keepFirst cs) = length cs"
    by (auto simp add: emptyAcc_def)
  show "\<forall>c \<in> set cs. \<exists>p. phone c = Some p \<and> p \<noteq> []"
    using ok accepted_has_phone by blast
  show "\<forall>c \<in> set cs.
          c \<in> set (leads (fold admit cs emptyAcc))
          \<longleftrightarrow> find (\<lambda>d. phoneKey d = phoneKey c) cs = Some c"
    unfolding res using find_keepFirst find_first_kept by blast
next
  show "subseq (keepFirst cs) cs" by (rule subseq_keepFirst)
  show "distinct (map phoneKey (keepFirst cs))" by (rule distinct_keepFirst)
  show "phoneKey ` set (keepFirst cs) = phoneKey ` set cs" by (rule keys_keepFirst)
  show "\<forall>m \<in> set (keepFirst cs). find (\<lambda>c. phoneKey c = phoneKey m) cs = Some m"
    using find_keepFirst by blast
next
  assume "\<not> rejected a \<and> \<not> rejected b \<and> phoneKey a \<noteq> phoneKey b"
  then have ra: "\<not> rejected a" and rb: "\<not> rejected b" and ne: "phoneKey a \<noteq> phoneKey b"
    by simp_all
  from admit_pair [OF ra rb] ne
  show "leads (fold admit [a, b] emptyAcc) = [a, b]"
    and "dupCount (fold admit [a, b] emptyAcc) = 0"
    by simp_all
next
  assume "\<not> rejected a \<and> \<not> rejected b \<and> phoneKey a = phoneKey b"
  then have ra: "\<not> rejected a" and rb: "\<not> rejected b" and eq: "phoneKey a = phoneKey b"
    by simp_all
  from admit_pair [OF ra rb] eq
  show "leads (fold admit [a, b] emptyAcc) = [a]"
    and "dupCount (fold admit [a, b] emptyAcc) = 1"
    by simp_all
qed

theorem first_occurrence_wins_witness:
  "\<not> rejected (mkLead tick scenarioMapping 0 (rawData scenarioState ! 0))
   \<and> \<not> rejected (mkLead tick scenarioMapping 1 (rawData scenarioState ! 1))
   \<and> \<not> rejected (mkLead tick scenarioMapping 3 meeraRow)
   \<and> phone (mkLead tick scenarioMapping 0 (rawData scenarioState ! 0)) = Some ''98765 43210''
   \<and> phoneKey (mkLead tick scenarioMapping 0 (rawData scenarioState ! 0)) = ''9876543210''
   \<and> phone (mkLead tick scenarioMapping 1 (rawData scenarioState ! 1)) = Some ''9876543210''
   \<and> phoneKey (mkLead tick scenarioMapping 1 (rawData scenarioState ! 1)) = ''9876543210''
   \<and> phone (mkLead tick scenarioMapping 3 meeraRow) = Some ''99988 87777''
   \<and> phoneKey (mkLead tick scenarioMapping 3 meeraRow) = ''9998887777''
   \<and> leads (fold admit [mkLead tick scenarioMapping 0 (rawData scenarioState ! 0),
                          mkLead tick scenarioMapping 1 (rawData scenarioState ! 1),
                          mkLead tick scenarioMapping 3 meeraRow] emptyAcc)
       = [mkLead tick scenarioMapping 0 (rawData scenarioState ! 0),
          mkLead tick scenarioMapping 3 meeraRow]
   \<and> dupCount (fold admit [mkLead tick scenarioMapping 0 (rawData scenarioState ! 0),
                             mkLead tick scenarioMapping 1 (rawData scenarioState ! 1),
                             mkLead tick scenarioMapping 3 meeraRow] emptyAcc) = 1
   \<and> leads (fold admit [mkLead tick scenarioMapping 0 (rawData scenarioState ! 0),
                          mkLead tick scenarioMapping 3 meeraRow] emptyAcc)
       = [mkLead tick scenarioMapping 0 (rawData scenarioState ! 0),
          mkLead tick scenarioMapping 3 meeraRow]
   \<and> leads (fold admit [mkLead tick scenarioMapping 0 (rawData scenarioState ! 0),
                          mkLead tick scenarioMapping 1 (rawData scenarioState ! 1)] emptyAcc)
       = [mkLead tick scenarioMapping 0 (rawData scenarioState ! 0)]
   \<and> find (\<lambda>c. phoneKey c = phoneKey (mkLead tick scenarioMapping 0 (rawData scenarioState ! 0)))
        [mkLead tick scenarioMapping 0 (rawData scenarioState ! 0),
         mkLead tick scenarioMapping 1 (rawData scenarioState ! 1),
         mkLead tick scenarioMapping 3 meeraRow]
       = Some (mkLead tick scenarioMapping 0 (rawData scenarioState ! 0))"
proof -
  let ?a = "mkLead tick scenarioMapping 0 (rawData scenarioState ! 0)"
  let ?b = "mkLead tick scenarioMapping 1 (rawData scenarioState ! 1)"
  let ?c = "mkLead tick scenarioMapping 3 meeraRow"
  have ra: "\<not> rejected ?a" and rb: "\<not> rejected ?b" and rc: "\<not> rejected ?c"
    by (simp_all add: scenario_rejected meera_accepted)
  have pa: "phone ?a = Some ''98765 43210''" and pb: "phone ?b = Some ''9876543210''"
    and pc: "phone ?c = Some ''99988 87777''"
    by (simp_all add: scenario_lead0 scenario_lead1 meera_lead)
  have ka: "phoneKey ?a = ''9876543210''"
    using first_occurrence_wins [where l = ?a] pa by simp
  have kb: "phoneKey ?b = ''9876543210''"
    using first_occurrence_wins [where l = ?b] pb by simp
  have kc: "phoneKey ?c = ''9998887777''"
    using first_occurrence_wins [where l = ?c] pc by simp
  have ok: "\<forall>c \<in> set [?a, ?b, ?c]. \<not> rejected c" using ra rb rc by simp
  have kf: "keepFirst [?a, ?b, ?c] = [?a, ?c]" using ka kb kc by simp
  from first_occurrence_wins [where cs = "[?a, ?b, ?c]"] ok
  have "leads (fold admit [?a, ?b, ?c] emptyAcc) = keepFirst [?a, ?b, ?c]"
    and "dupCount (fold admit [?a, ?b, ?c] emptyAcc) + length (keepFirst [?a, ?b, ?c])
           = length [?a, ?b, ?c]"
    and "\<forall>m \<in> set (keepFirst [?a, ?b, ?c]).
           find (\<lambda>c. phoneKey c = phoneKey m) [?a, ?b, ?c] = Some m"
    by blast+
  with kf have three: "leads (fold admit [?a, ?b, ?c] emptyAcc) = [?a, ?c]"
    and dup: "dupCount (fold admit [?a, ?b, ?c] emptyAcc) = 1"
    and fnd: "find (\<lambda>c. phoneKey c = phoneKey ?a) [?a, ?b, ?c] = Some ?a"
    by simp_all
  have diff: "\<not> rejected ?a \<and> \<not> rejected ?c \<and> phoneKey ?a \<noteq> phoneKey ?c"
    using ra rc ka kc by simp
  have same: "\<not> rejected ?a \<and> \<not> rejected ?b \<and> phoneKey ?a = phoneKey ?b"
    using ra rb ka kb by simp
  from first_occurrence_wins [where a = ?a and b = ?c] diff
  have two: "leads (fold admit [?a, ?c] emptyAcc) = [?a, ?c]" by blast
  from first_occurrence_wins [where a = ?a and b = ?b] same
  have one: "leads (fold admit [?a, ?b] emptyAcc) = [?a]" by blast
  from ra rb rc pa pb pc ka kb kc three dup two one fnd show ?thesis by blast
qed

subsection \<open>The scenario\<close>

text \<open>
  C3. With header \<open>Full Name, Mobile, City\<close>, the rows of Asha (phone \<open>98765 43210\<close>),
  Ravi (phone \<open>9876543210\<close>) and a row with a blank name, and the mapping of name, phone
  and city to these columns, processing yields exactly one record, Asha's; Ravi's row
  has the same identity key \<open>9876543210\<close> and is counted as the one duplicate; the row
  with the blank name is rejected.
\<close>

theorem scenario_result:
  "parsedLeads (processLeads clock scenarioState)
     = [(defaultLead clock 0)\<lparr>name := Some ''Asha'', phone := Some ''98765 43210'',
                               city := Some ''Pune''\<rparr>]
   \<and> duplicates (processLeads clock scenarioState) = 1
   \<and> length (parsedLeads (processLeads clock scenarioState)) = 1
   \<and> step (processLeads clock scenarioState) = Preview
   \<and> phoneKey (mkLead clock scenarioMapping 0 (rawData scenarioState ! 0)) = ''9876543210''
   \<and> phoneKey (mkLead clock scenarioMapping 1 (rawData scenarioState ! 1)) = ''9876543210''
   \<and> rejected (mkLead clock scenarioMapping 2 (rawData scenarioState ! 2))
   \<and> columnMapping scenarioState = scenarioMapping
   \<and> columns scenarioState = Some [Some (Str ''Full Name''), Some (Str ''Mobile''), Some (Str ''City'')]
   \<and> length (rawData scenarioState) = 3"
proof -
  have cm: "columnMapping scenarioState = scenarioMapping"
    by (simp add: scenarioState_def)
  have cols: "columns scenarioState
                = Some [Some (Str ''Full Name''), Some (Str ''Mobile''), Some (Str ''City'')]"
    by (simp add: scenarioState_def handleFileChange_def scenarioSheet_def rowObjects_def
          rowObject_def fromEntries_def headerEntries_def arrayAt_def)
  have len: "length (rawData scenarioState) = 3" by (simp add: scenario_rows)
  have run: "processLeads clock scenarioState
       = scenarioState\<lparr>duplicates := 1,
           parsedLeads := [mkLead clock scenarioMapping 0 (rawData scenarioState ! 0)],
           step := Preview\<rparr>"
    by (simp add: processLeads_def cm scenario_processRows)
  show ?thesis
    by (simp add: run cm cols len scenario_lead0 [symmetric] scenario_keys scenario_rejected)
qed

subsection \<open>Reset\<close>

text \<open>
  C4. \<open>resetState\<close> sets eight of the state variables back to their initial values and
  leaves \<open>assignmentMode\<close>, \<open>selectedCaller\<close> and \<open>callers\<close> as they are: from a
  state in which the single-operator mode and an operator were chosen, the state after the
  reset still holds both, and differs from the initial state.
\<close>

theorem reset_keeps_assignment:
  "assignmentMode (resetState (initialState\<lparr>step := Preview, assignmentMode := Single,
                                             selectedCaller := ''caller_7''\<rparr>)) = Single
   \<and> selectedCaller (resetState (initialState\<lparr>step := Preview, assignmentMode := Single,
                                               selectedCaller := ''caller_7''\<rparr>)) = ''caller_7''
   \<and> resetState (initialState\<lparr>step := Preview, assignmentMode := Single,
                               selectedCaller := ''caller_7''\<rparr>) \<noteq> initialState
   \<and> fst (handleClose (initialState\<lparr>step := Preview, assignmentMode := Single,
                                      selectedCaller := ''caller_7''\<rparr>)) \<noteq> initialState"
  by (simp add: resetState_def initialState_def handleClose_def)

subsection \<open>Validation of the mapping\<close>

lemma required_keys: "map key (filter required leadFields) = [''name'', ''phone'']"
  by (simp add: leadFields_def)

lemma missingRequired_eq:
  "missingRequired cm = filter (\<lambda>k. map_of cm k = None) [''name'', ''phone'']"
  by (simp add: missingRequired_def required_keys)

text \<open>What the source itself does when a required field has no entry in the mapping:
  \<open>processLeads\<close> rejects every row, and the result is empty.\<close>

lemma unmapped_required_rejects_all:
  assumes "k = ''name'' \<or> k = ''phone''" and "k \<notin> fst ` set (columnMapping s)"
  shows "parsedLeads (processLeads clock s) = []"
proof -
  have "rejected (mkLead clock (columnMapping s) i row)" for i row
  proof -
    note other = fold_applyField_other_keys [OF assms(2), of row "defaultLead clock i"]
    from assms(1) show ?thesis
    proof
      assume "k = ''name''"
      with other have "name (mkLead clock (columnMapping s) i row) = name (defaultLead clock i)"
        by (simp add: mkLead_def)
      then show ?thesis by (simp add: rejected_def unset_def defaultLead_def)
    next
      assume "k = ''phone''"
      with other have "phone (mkLead clock (columnMapping s) i row) = phone (defaultLead clock i)"
        by (simp add: mkLead_def)
      then show ?thesis by (simp add: rejected_def unset_def defaultLead_def)
    qed
  qed
  then have "candidates clock (columnMapping s) (rawData s) = []"
    by (simp add: candidates_def)
  then show ?thesis
    by (simp add: processLeads_fields processRows_candidates emptyAcc_def)
qed

text \<open>
  C5. \<open>validate\<close> returns the required field keys (name, phone) that have no mapped
  column. Whenever one of them is unmapped the list is non-empty and contains it, and the
  step from mapping to assignment is not taken; a mapping that has name and leaves phone
  unset yields \<open>missingRequired = [phone]\<close>. With both mapped the step is taken.
\<close>

theorem validate_blocks_unmapped_required:
  "missingRequired cm = filter (\<lambda>k. map_of cm k = None) [''name'', ''phone'']
   \<and> (k \<in> {''name'', ''phone''} \<and> map_of cm k = None \<longrightarrow>
        validate cm = MissingRequired (missingRequired cm)
        \<and> missingRequired cm \<noteq> []
        \<and> k \<in> set (missingRequired cm)
        \<and> mappingToAssignment (s\<lparr>step := Mapping, columnMapping := cm\<rparr>)
            = s\<lparr>step := Mapping, columnMapping := cm\<rparr>)
   \<and> (map_of cm ''name'' \<noteq> None \<and> map_of cm ''phone'' = None \<longrightarrow>
        validate cm = MissingRequired [''phone''])
   \<and> (map_of cm ''name'' \<noteq> None \<and> map_of cm ''phone'' \<noteq> None \<longrightarrow>
        validate cm = Ok
        \<and> step (mappingToAssignment (s\<lparr>step := Mapping, columnMapping := cm\<rparr>)) = Assignment)"
proof (intro conjI impI)
  show "missingRequired cm = filter (\<lambda>k. map_of cm k = None) [''name'', ''phone'']"
    by (rule missingRequired_eq)
next
  assume h: "k \<in> {''name'', ''phone''} \<and> map_of cm k = None"
  then show in_list: "k \<in> set (missingRequired cm)"
    by (auto simp add: missingRequired_eq)
  then show nonempty: "missingRequired cm \<noteq> []" by auto
  then show v: "validate cm = MissingRequired (missingRequired cm)"
    by (simp add: validate_def)
  then show "mappingToAssignment (s\<lparr>step := Mapping, columnMapping := cm\<rparr>)
            = s\<lparr>step := Mapping, columnMapping := cm\<rparr>"
    by (simp add: mappingToAssignment_def)
next
  assume "map_of cm ''name'' \<noteq> None \<and> map_of cm ''phone'' = None"
  then show "validate cm = MissingRequired [''phone'']"
    by (simp add: validate_def missingRequired_eq)
next
  assume h: "map_of cm ''name'' \<noteq> None \<and> map_of cm ''phone'' \<noteq> None"
  then show v: "validate cm = Ok"
    by (simp add: validate_def missingRequired_eq)
  then show "step (mappingToAssignment (s\<lparr>step := Mapping, columnMapping := cm\<rparr>)) = Assignment"
    by (simp add: mappingToAssignment_def)
qed

theorem validate_blocks_unmapped_required_witness:
  "validate [(''name'', ''Full Name''), (''city'', ''City'')] = MissingRequired [''phone'']
   \<and> step (mappingToAssignment
        (initialState\<lparr>step := Mapping,
                       columnMapping := [(''name'', ''Full Name''), (''city'', ''City'')]\<rparr>)) = Mapping
   \<and> validate scenarioMapping = Ok
   \<and> step (mappingToAssignment
        (initialState\<lparr>step := Mapping, columnMapping := scenarioMapping\<rparr>)) = Assignment"
proof -
  let ?cm = "[(''name'', ''Full Name''), (''city'', ''City'')]"
  have a: "''phone'' \<in> {''name'', ''phone''} \<and> map_of ?cm ''phone'' = None" by simp
  have b: "map_of ?cm ''name'' \<noteq> None \<and> map_of ?cm ''phone'' = None" by simp
  have c: "map_of scenarioMapping ''name'' \<noteq> None \<and> map_of scenarioMapping ''phone'' \<noteq> None"
    by (simp add: scenarioMapping_def)
  from validate_blocks_unmapped_required [of ?cm "''phone''" initialState] a b
  have "validate ?cm = MissingRequired [''phone'']"
    and "mappingToAssignment (initialState\<lparr>step := Mapping, columnMapping := ?cm\<rparr>)
           = initialState\<lparr>step := Mapping, columnMapping := ?cm\<rparr>"
    by blast+
  moreover from validate_blocks_unmapped_required [of scenarioMapping "''phone''" initialState] c
  have "validate scenarioMapping = Ok"
    and "step (mappingToAssignment
           (initialState\<lparr>step := Mapping, columnMapping := scenarioMapping\<rparr>)) = Assignment"
    by blast+
  ultimately show ?thesis by simp
qed

subsection \<open>Reading the file\<close>

lemma fromEntries_Some_iff: "(\<exists>obj. fromEntries es = Some obj) \<longleftrightarrow> None \<notin> set es"
proof (induction es)
  case Nil
  then show ?case by (simp add: fromEntries_def)
next
  case (Cons e es)
  then show ?case
    by (cases e) (auto simp add: fromEntries_def split: option.splits)
qed

lemma headerEntries_hole: "None \<in> set (headerEntries headers r) \<longleftrightarrow> None \<in> set headers"
proof -
  have "None \<in> set (map (\<lambda>(i, h). map_option (f i) h) (enumerate n hs)) \<longleftrightarrow> None \<in> set hs"
    for f :: "nat \<Rightarrow> jsval \<Rightarrow> string \<times> jsval" and n hs
    by (induction hs arbitrary: n) auto
  from this [of "\<lambda>i v. (js_String v, arrayAt r i)" 0 headers]
  show ?thesis by (simp add: headerEntries_def)
qed

lemma rowObject_None_iff: "rowObject headers r = None \<longleftrightarrow> None \<in> set headers"
  using fromEntries_Some_iff [of "headerEntries headers r"]
  by (auto simp add: rowObject_def headerEntries_hole)

lemma those_None_iff: "those xs = None \<longleftrightarrow> None \<in> set xs"
proof (induction xs)
  case Nil
  then show ?case by simp
next
  case (Cons x xs)
  then show ?case by (cases x) (auto split: option.splits)
qed

lemma rowObjects_None_iff:
  "rowObjects headers rows = None \<longleftrightarrow> rows \<noteq> [] \<and> None \<in> set headers"
proof -
  have "rowObjects headers rows = None \<longleftrightarrow> (\<exists>r \<in> set rows. rowObject headers r = None)"
    unfolding rowObjects_def those_None_iff by (metis (no_types) image_iff set_map)
  also have "\<dots> \<longleftrightarrow> rows \<noteq> [] \<and> None \<in> set headers"
    by (cases rows) (auto simp add: rowObject_None_iff)
  finally show ?thesis .
qed

text \<open>
  C6, as the claim states it, fails: a first sheet with zero rows is not refused. The
  handler runs to its end and moves to the mapping step, with no ColumnSet and no rows.
\<close>

theorem empty_sheet_reaches_mapping:
  "fst (handleFileChange (Some ''leads.xlsx'') (Sheet []) initialState) = Done
   \<and> step (snd (handleFileChange (Some ''leads.xlsx'') (Sheet []) initialState)) = Mapping
   \<and> step (snd (handleFileChange (Some ''leads.xlsx'') (Sheet []) initialState)) \<noteq> Upload
   \<and> columns (snd (handleFileChange (Some ''leads.xlsx'') (Sheet []) initialState)) = None
   \<and> rawData (snd (handleFileChange (Some ''leads.xlsx'') (Sheet []) initialState)) = []"
  by (simp add: handleFileChange_def initialState_def rowObjects_def)

text \<open>
  C6, amended. Without a selected file the handler changes nothing. When reading the
  bytes throws, the handler's promise rejects and the step stays as it was; so it does
  when reading returns but a row object cannot be built, which is the case exactly when
  the header row has a blank cell and there is a data row. In every other case in which
  reading returns, a first sheet with zero rows included, the handler runs to its end and
  moves to the mapping step: the first row, if any, is the ColumnSet, and every further
  row gives one raw row.
\<close>

theorem file_change_steps:
  "handleFileChange None rd s = (NoFile, s)
   \<and> fst (handleFileChange (Some f) ReadThrows s) = Rejected ReadError
   \<and> step (snd (handleFileChange (Some f) ReadThrows s)) = step s
   \<and> fst (handleFileChange (Some f) (Sheet []) s) = Done
   \<and> step (snd (handleFileChange (Some f) (Sheet []) s)) = Mapping
   \<and> columns (snd (handleFileChange (Some f) (Sheet []) s)) = None
   \<and> rawData (snd (handleFileChange (Some f) (Sheet []) s)) = []
   \<and> (rows \<noteq> [] \<and> None \<in> set h \<longrightarrow>
        fst (handleFileChange (Some f) (Sheet (h # rows)) s) = Rejected TypeError
        \<and> step (snd (handleFileChange (Some f) (Sheet (h # rows)) s)) = step s)
   \<and> (rows = [] \<or> None \<notin> set h \<longrightarrow>
        fst (handleFileChange (Some f) (Sheet (h # rows)) s) = Done
        \<and> step (snd (handleFileChange (Some f) (Sheet (h # rows)) s)) = Mapping
        \<and> columns (snd (handleFileChange (Some f) (Sheet (h # rows)) s)) = Some h
        \<and> rowObjects h rows = Some (rawData (snd (handleFileChange (Some f) (Sheet (h # rows)) s)))
        \<and> length (rawData (snd (handleFileChange (Some f) (Sheet (h # rows)) s))) = length rows)"
proof (intro conjI impI)
  show "handleFileChange None rd s = (NoFile, s)"
    and "fst (handleFileChange (Some f) ReadThrows s) = Rejected ReadError"
    and "step (snd (handleFileChange (Some f) ReadThrows s)) = step s"
    and "fst (handleFileChange (Some f) (Sheet []) s) = Done"
    and "step (snd (handleFileChange (Some f) (Sheet []) s)) = Mapping"
    and "columns (snd (handleFileChange (Some f) (Sheet []) s)) = None"
    and "rawData (snd (handleFileChange (Some f) (Sheet []) s)) = []"
    by (simp_all add: handleFileChange_def rowObjects_def)
next
  assume "rows \<noteq> [] \<and> None \<in> set h"
  then have thr: "rowObjects h rows = None" by (simp add: rowObjects_None_iff)
  then show "fst (handleFileChange (Some f) (Sheet (h # rows)) s) = Rejected TypeError"
    and "step (snd (handleFileChange (Some f) (Sheet (h # rows)) s)) = step s"
    by (simp_all add: handleFileChange_def)
next
  assume "rows = [] \<or> None \<notin> set h"
  then have "rowObjects h rows \<noteq> None" by (auto simp add: rowObjects_None_iff)
  then obtain objs where objs: "rowObjects h rows = Some objs" by auto
  then have len: "length objs = length rows"
  proof -
    have "those xs = Some ys \<Longrightarrow> length ys = length xs" for xs :: "jsobj option list" and ys
      by (induction xs arbitrary: ys) (auto split: option.splits)
    with objs show ?thesis by (simp add: rowObjects_def)
  qed
  from objs len
  show "fst (handleFileChange (Some f) (Sheet (h # rows)) s) = Done"
    and "step (snd (handleFileChange (Some f) (Sheet (h # rows)) s)) = Mapping"
    and "columns (snd (handleFileChange (Some f) (Sheet (h # rows)) s)) = Some h"
    and "rowObjects h rows = Some (rawData (snd (handleFileChange (Some f) (Sheet (h # rows)) s)))"
    and "length (rawData (snd (handleFileChange (Some f) (Sheet (h # rows)) s))) = length rows"
    by (simp_all add: handleFileChange_def)
qed

theorem file_change_steps_witness:
  "fst (handleFileChange (Some ''leads.xlsx'') (Sheet blankHeaderSheet) initialState)
     = Rejected TypeError
   \<and> step (snd (handleFileChange (Some ''leads.xlsx'') (Sheet blankHeaderSheet) initialState))
       = Upload
   \<and> fst (handleFileChange (Some ''leads.xlsx'') (Sheet headerOnlySheet) initialState) = Done
   \<and> step (snd (handleFileChange (Some ''leads.xlsx'') (Sheet headerOnlySheet) initialState))
       = Mapping
   \<and> fst (handleFileChange (Some ''leads.xlsx'') (Sheet scenarioSheet) initialState) = Done
   \<and> step (snd (handleFileChange (Some ''leads.xlsx'') (Sheet scenarioSheet) initialState))
       = Mapping
   \<and> length (rawData (snd (handleFileChange (Some ''leads.xlsx'') (Sheet scenarioSheet)
                               initialState))) = 3"
proof -
  let ?h = "[Some (Str ''Full Name''), None, Some (Str ''Mobile'')]"
  let ?r = "[Some (Str ''Asha''), Some (Str ''Pune''), Some (Str ''98765 43210'')]"
  let ?hs = "map Some [Str ''Full Name'', Str ''Mobile'', Str ''City'']"
  let ?rs = "map (map Some)
       [[Str ''Asha'', Str ''98765 43210'', Str ''Pune''],
        [Str ''Ravi'', Str ''9876543210'', Str ''Mumbai''],
        [Str [], Str ''9998887777'', Str ''Delhi'']]"
  have blank: "blankHeaderSheet = ?h # [?r]" by (simp add: blankHeaderSheet_def)
  have only: "headerOnlySheet = ?h # []" by (simp add: headerOnlySheet_def)
  have scen: "scenarioSheet = ?hs # ?rs" by (simp add: scenarioSheet_def)
  have a: "[?r] \<noteq> [] \<and> None \<in> set ?h" by simp
  have b: "([] :: jsval option list list) = [] \<or> None \<notin> set ?h" by simp
  have c: "?rs = [] \<or> None \<notin> set ?hs" by auto
  from file_change_steps [where h = ?h and rows = "[?r]" and f = "''leads.xlsx''"
      and s = initialState] a
  have "fst (handleFileChange (Some ''leads.xlsx'') (Sheet (?h # [?r])) initialState)
          = Rejected TypeError"
    and "step (snd (handleFileChange (Some ''leads.xlsx'') (Sheet (?h # [?r])) initialState))
          = step initialState"
    by blast+
  moreover from file_change_steps [where h = ?h and rows = "[]" and f = "''leads.xlsx''"
      and s = initialState] b
  have "fst (handleFileChange (Some ''leads.xlsx'') (Sheet (?h # [])) initialState) = Done"
    and "step (snd (handleFileChange (Some ''leads.xlsx'') (Sheet (?h # [])) initialState))
          = Mapping"
    by blast+
  moreover from file_change_steps [where h = ?hs and rows = ?rs and f = "''leads.xlsx''"
      and s = initialState] c
  have "fst (handleFileChange (Some ''leads.xlsx'') (Sheet (?hs # ?rs)) initialState) = Done"
    and "step (snd (handleFileChange (Some ''leads.xlsx'') (Sheet (?hs # ?rs)) initialState))
          = Mapping"
    and "length (rawData (snd (handleFileChange (Some ''leads.xlsx'') (Sheet (?hs # ?rs))
                                  initialState))) = length ?rs"
    by blast+
  ultimately show ?thesis
    unfolding blank only scen by (simp add: initialState_def)
qed

subsection \<open>Reprocessing\<close>

text \<open>
  C8. Running \<open>processLeads\<close> a second time, at other clock readings and with no reset
  in between, works on the same raw rows and column mapping and yields records with the
  same contents (every field but identifier and timestamps) in the same order, and the
  same duplicate count.
\<close>

theorem reprocessing_same_contents:
  "map content (parsedLeads (processLeads c2 (processLeads c1 s)))
     = map content (parsedLeads (processLeads c1 s))
   \<and> duplicates (processLeads c2 (processLeads c1 s)) = duplicates (processLeads c1 s)
   \<and> rawData (processLeads c1 s) = rawData s
   \<and> columnMapping (processLeads c1 s) = columnMapping s"
  using processRows_content [of c2 "columnMapping s" "rawData s" c1]
  by (simp add: processLeads_def Let_def)

subsection \<open>The status field\<close>

lemma map_const_replicate: "\<forall>x \<in> set xs. f x = c \<Longrightarrow> map f xs = replicate (length xs) c"
  by (induction xs) simp_all

lemma admit_status:
  "status l = ''active'' \<Longrightarrow> \<forall>m \<in> set (leads a). status m = ''active''
   \<Longrightarrow> \<forall>m \<in> set (leads (admit l a)). status m = ''active''"
  by (simp add: admit_def)

lemma fold_processRow_status:
  "\<forall>m \<in> set (leads a). status m = ''active''
   \<Longrightarrow> \<forall>m \<in> set (leads (fold (processRow clock cm) irs a)). status m = ''active''"
proof (induction irs arbitrary: a)
  case Nil
  then show ?case by simp
next
  case (Cons ir irs)
  have "\<forall>m \<in> set (leads (processRow clock cm ir a)). status m = ''active''"
    unfolding processRow_def using status_mkLead Cons.prems by (rule admit_status)
  then show ?case using Cons.IH by simp
qed

text \<open>
  C9. Whatever the row and the column mapping, a mapping of a column to \<open>status\<close>
  included, the record built has \<open>status = active\<close>, and so has every record of the
  result: the switch has no case for \<open>status\<close>. A mapped stage or priority cell does
  override the default.
\<close>

theorem status_always_active:
  "status (mkLead clock cm i row) = ''active''
   \<and> map status (parsedLeads (processLeads clock s))
       = replicate (length (parsedLeads (processLeads clock s))) ''active''
   \<and> status (mkLead clock [(''status'', ''Status'')] i [(''Status'', Str ''inactive'')]) = ''active''
   \<and> mkLead clock [(''status'', ''Status'')] i [(''Status'', Str ''inactive'')] = defaultLead clock i
   \<and> stage (mkLead clock [(''stage'', ''Stage'')] i [(''Stage'', Str ''won'')]) = Str ''won''
   \<and> priority (mkLead clock [(''priority'', ''Priority'')] i [(''Priority'', Str ''hot'')])
       = Str ''hot''"
proof -
  have "\<forall>m \<in> set (leads (processRows clock (columnMapping s) (rawData s))). status m = ''active''"
    unfolding processRows_def by (rule fold_processRow_status) (simp add: emptyAcc_def)
  then have "map status (parsedLeads (processLeads clock s))
       = replicate (length (parsedLeads (processLeads clock s))) ''active''"
    by (simp add: processLeads_def Let_def map_const_replicate)
  moreover have "mkLead clock [(''status'', ''Status'')] i [(''Status'', Str ''inactive'')]
                 = defaultLead clock i"
    by (simp add: lead_eval)
  moreover have "stage (mkLead clock [(''stage'', ''Stage'')] i [(''Stage'', Str ''won'')]) = Str ''won''"
    by (simp add: lead_eval stageMapping_def str_eval)
  moreover have "priority (mkLead clock [(''priority'', ''Priority'')] i [(''Priority'', Str ''hot'')])
       = Str ''hot''"
    by (simp add: lead_eval priorityMapping_def str_eval)
  ultimately show ?thesis by (simp add: status_mkLead defaultLead_def)
qed


subsection \<open>Vocabulary and numeric fallbacks\<close>

lemma js_or_Undefined: "js_or Undefined b = b"
  by (simp add: js_or_def)

lemma won_lookup: "js_or (getProp stageMapping (toLowerCase ''WON'')) (Str ''new'') = Str ''won''"
  by (simp add: str_eval getProp_def stageMapping_def js_or_def)

lemma unknown_stage_lookup:
  "js_or (getProp stageMapping (toLowerCase ''unknown_stage'')) (Str ''new'') = Str ''new''"
  by (simp add: str_eval getProp_def stageMapping_def js_or_def objectPrototypeNames_def)

lemma malformed_tokens:
  "toLowerCase ''Billboard'' \<notin> fst ` set sourceMapping"
  "toLowerCase ''Billboard'' \<notin> set objectPrototypeNames"
  "toLowerCase ''unknown_stage'' \<notin> fst ` set stageMapping"
  "toLowerCase ''unknown_stage'' \<notin> set objectPrototypeNames"
  "toLowerCase ''URGENT'' \<notin> fst ` set priorityMapping"
  "toLowerCase ''URGENT'' \<notin> set objectPrototypeNames"
  by (simp_all add: str_eval sourceMapping_def stageMapping_def priorityMapping_def
        objectPrototypeNames_def)

lemma malformed_cells:
  "getProp malformedRow ''Source'' = Str ''Billboard''"
  "getProp malformedRow ''Stage'' = Str ''unknown_stage''"
  "getProp malformedRow ''Priority'' = Str ''URGENT''"
  "getProp malformedRow ''Value'' = Str ''abc''"
  "getProp wonRow ''Stage'' = Str ''WON''"
  by (simp_all add: getProp_def malformedRow_def wonRow_def)

lemma abc_not_numeric: "stringToNumber ''abc'' = NaN"
  by (simp add: stringToNumber_def trimSpaces_def isSpace_def unsignedDecimal_def isDigit_def)

lemma vocabularyMapping_keys:
  "distinct (map fst vocabularyMapping)"
  "(''source'', ''Source'') \<in> set vocabularyMapping"
  "(''stage'', ''Stage'') \<in> set vocabularyMapping"
  "(''priority'', ''Priority'') \<in> set vocabularyMapping"
  "(''value'', ''Value'') \<in> set vocabularyMapping"
  by (simp_all add: vocabularyMapping_def)

text \<open>
  C7, as the claim states it, fails: a cell holding the number 0 in a column mapped to
  \<open>source\<close> matches no token of the source table, and the record's \<open>source\<close> stays
  unset instead of becoming \<open>other\<close>.
\<close>

theorem zero_source_cell_stays_unset:
  "getProp zeroRow ''Source'' = Num 0
   \<and> toLowerCase (js_String (Num 0)) = ''0''
   \<and> toLowerCase (js_String (Num 0)) \<notin> fst ` set sourceMapping
   \<and> source (mkLead tick vocabularyMapping 0 zeroRow) = None
   \<and> source (mkLead tick vocabularyMapping 0 zeroRow) \<noteq> Some (Str ''other'')"
proof -
  have cell: "getProp zeroRow ''Source'' = Num 0"
    by (simp add: getProp_def zeroRow_def)
  have str: "toLowerCase (js_String (Num 0)) = ''0''"
    by (simp add: showInt_def digits.simps digitChar_def str_eval)
  have "source (mkLead tick vocabularyMapping 0 zeroRow) = None"
    using vocabularyMapping_keys(1,2) cell by (simp add: source_mkLead)
  with cell str show ?thesis by (simp add: sourceMapping_def)
qed

text \<open>
  C7, amended. Let a column be mapped to an enumerated field, and let the lower-cased
  string form of its cell be neither a token of the field's vocabulary table nor the name
  of a member of \<open>Object.prototype\<close>. Then \<open>stage\<close> is \<open>new\<close> and \<open>priority\<close> is
  \<open>warm\<close>, whatever the cell; \<open>source\<close> is \<open>other\<close> when the cell is truthy (a falsy
  cell leaves \<open>source\<close> unset). A stage cell \<open>WON\<close> gives \<open>won\<close>, and
  \<open>unknown_stage\<close> gives \<open>new\<close>. A value cell holding text that \<open>Number\<close> turns into
  NaN gives \<open>value = 0\<close>. The functions are total: no cell makes them fail.
\<close>

theorem enum_and_value_fallback:
  assumes "distinct (map fst cm)" and "(k, col) \<in> set cm"
  shows
  "(k = ''source'' \<and> \<not> falsy (getProp row col)
      \<and> toLowerCase (js_String (getProp row col)) \<notin> fst ` set sourceMapping
      \<and> toLowerCase (js_String (getProp row col)) \<notin> set objectPrototypeNames
      \<longrightarrow> source (mkLead clock cm i row) = Some (Str ''other''))
   \<and> (k = ''stage''
      \<and> toLowerCase (js_String (getProp row col)) \<notin> fst ` set stageMapping
      \<and> toLowerCase (js_String (getProp row col)) \<notin> set objectPrototypeNames
      \<longrightarrow> stage (mkLead clock cm i row) = Str ''new'')
   \<and> (k = ''priority''
      \<and> toLowerCase (js_String (getProp row col)) \<notin> fst ` set priorityMapping
      \<and> toLowerCase (js_String (getProp row col)) \<notin> set objectPrototypeNames
      \<longrightarrow> priority (mkLead clock cm i row) = Str ''warm'')
   \<and> (k = ''stage'' \<and> getProp row col = Str ''WON''
      \<longrightarrow> stage (mkLead clock cm i row) = Str ''won'')
   \<and> (k = ''stage'' \<and> getProp row col = Str ''unknown_stage''
      \<longrightarrow> stage (mkLead clock cm i row) = Str ''new'')
   \<and> (k = ''value'' \<and> getProp row col = Str s \<and> stringToNumber s = NaN
      \<longrightarrow> value (mkLead clock cm i row) = Some (Fin 0))"
proof (intro conjI impI)
  assume h: "k = ''source'' \<and> \<not> falsy (getProp row col)
      \<and> toLowerCase (js_String (getProp row col)) \<notin> fst ` set sourceMapping
      \<and> toLowerCase (js_String (getProp row col)) \<notin> set objectPrototypeNames"
  then have "getProp sourceMapping (toLowerCase (js_String (getProp row col))) = Undefined"
    by (simp add: getProp_no_entry)
  with h assms show "source (mkLead clock cm i row) = Some (Str ''other'')"
    by (simp add: source_mkLead js_or_Undefined)
next
  assume h: "k = ''stage''
      \<and> toLowerCase (js_String (getProp row col)) \<notin> fst ` set stageMapping
      \<and> toLowerCase (js_String (getProp row col)) \<notin> set objectPrototypeNames"
  then have "getProp stageMapping (toLowerCase (js_String (getProp row col))) = Undefined"
    by (simp add: getProp_no_entry)
  with h assms show "stage (mkLead clock cm i row) = Str ''new''"
    by (simp add: stage_mkLead js_or_Undefined)
next
  assume h: "k = ''priority''
      \<and> toLowerCase (js_String (getProp row col)) \<notin> fst ` set priorityMapping
      \<and> toLowerCase (js_String (getProp row col)) \<notin> set objectPrototypeNames"
  then have "getProp priorityMapping (toLowerCase (js_String (getProp row col))) = Undefined"
    by (simp add: getProp_no_entry)
  with h assms show "priority (mkLead clock cm i row) = Str ''warm''"
    by (simp add: priority_mkLead js_or_Undefined)
next
  assume h: "k = ''stage'' \<and> getProp row col = Str ''WON''"
  with assms have "stage (mkLead clock cm i row)
      = js_or (getProp stageMapping (toLowerCase ''WON'')) (Str ''new'')"
    by (simp add: stage_mkLead)
  then show "stage (mkLead clock cm i row) = Str ''won''"
    by (simp only: won_lookup)
next
  assume h: "k = ''stage'' \<and> getProp row col = Str ''unknown_stage''"
  with assms have "stage (mkLead clock cm i row)
      = js_or (getProp stageMapping (toLowerCase ''unknown_stage'')) (Str ''new'')"
    by (simp add: stage_mkLead)
  then show "stage (mkLead clock cm i row) = Str ''new''"
    by (simp only: unknown_stage_lookup)
next
  assume h: "k = ''value'' \<and> getProp row col = Str s \<and> stringToNumber s = NaN"
  then have "s \<noteq> []" by (simp add: stringToNumber_NaN_nonempty)
  with h assms show "value (mkLead clock cm i row) = Some (Fin 0)"
    by (simp add: value_mkLead numOrZero_def)
qed

theorem enum_and_value_fallback_witness:
  "source (mkLead tick vocabularyMapping 0 malformedRow) = Some (Str ''other'')
   \<and> stage (mkLead tick vocabularyMapping 0 malformedRow) = Str ''new''
   \<and> priority (mkLead tick vocabularyMapping 0 malformedRow) = Str ''warm''
   \<and> value (mkLead tick vocabularyMapping 0 malformedRow) = Some (Fin 0)
   \<and> stage (mkLead tick vocabularyMapping 1 wonRow) = Str ''won''"
proof -
  note keys = vocabularyMapping_keys
  have "source (mkLead tick vocabularyMapping 0 malformedRow) = Some (Str ''other'')"
    using enum_and_value_fallback [OF keys(1) keys(2), where row = malformedRow and clock = tick and i = 0]
    by (simp add: malformed_cells malformed_tokens)
  moreover have "stage (mkLead tick vocabularyMapping 0 malformedRow) = Str ''new''"
    using enum_and_value_fallback [OF keys(1) keys(3), where row = malformedRow and clock = tick and i = 0]
    by (simp add: malformed_cells)
  moreover have "priority (mkLead tick vocabularyMapping 0 malformedRow) = Str ''warm''"
    using enum_and_value_fallback [OF keys(1) keys(4), where row = malformedRow and clock = tick and i = 0]
    by (simp add: malformed_cells malformed_tokens)
  moreover have "value (mkLead tick vocabularyMapping 0 malformedRow) = Some (Fin 0)"
    using enum_and_value_fallback [OF keys(1) keys(5), where row = malformedRow and clock = tick and i = 0
        and s = "''abc''"]
    by (simp add: malformed_cells abc_not_numeric)
  moreover have "stage (mkLead tick vocabularyMapping 1 wonRow) = Str ''won''"
    using enum_and_value_fallback [OF keys(1) keys(3), where row = wonRow and clock = tick and i = 1]
    by (simp add: malformed_cells)
  ultimately show ?thesis by simp
qed

text \<open>
  Why the amended statement leaves out the names of \<open>Object.prototype\<close>: the tables are
  plain objects, so a stage cell \<open>constructor\<close> reads the inherited member, which is
  truthy, and the fallback is not taken.
\<close>

lemma inherited_member_is_no_fallback:
  "stage (mkLead clock [(''stage'', ''Stage'')] i [(''Stage'', Str ''constructor'')])
     = Inherited ''constructor''"
  by (simp add: lead_eval stageMapping_def str_eval)

subsection \<open>Falsy cells\<close>

lemma absentName_sameTruthy: "sameTruthyCells scenarioMapping (rawData scenarioState ! 2) absentNameRow"
  by (simp add: sameTruthyCells_def scenarioMapping_def scenario_rows absentNameRow_def
        getProp_def objectPrototypeNames_def)

text \<open>
  C10. A mapped cell that is falsy (absent, null, the empty string, the number 0, false)
  leaves the record as it was: the field is skipped and no conversion is applied. So a
  value cell holding the number 0 leaves \<open>value\<close> unset; two rows that differ only in
  which falsy value a mapped cell holds (the empty string or nothing at all) give the
  same record; and a falsy cell in the column mapped to name or phone rejects the row.
\<close>

theorem falsy_cell_skips_field:
  "falsy Undefined \<and> falsy Null \<and> falsy (Str []) \<and> falsy (Num 0) \<and> falsy (Bool False)
   \<and> (falsy (getProp row col) \<longrightarrow> applyField row (k, col) l = l)
   \<and> (distinct (map fst cm) \<and> (''value'', col) \<in> set cm \<and> getProp row col = Num 0
        \<longrightarrow> value (mkLead clock cm i row) = None)
   \<and> (sameTruthyCells cm r1 r2 \<longrightarrow> mkLead clock cm i r1 = mkLead clock cm i r2)
   \<and> (distinct (map fst cm) \<and> (k, col) \<in> set cm \<and> k \<in> {''name'', ''phone''}
        \<and> falsy (getProp row col) \<longrightarrow> rejected (mkLead clock cm i row))"
proof (intro conjI impI)
  show "falsy Undefined" "falsy Null" "falsy (Str [])" "falsy (Num 0)" "falsy (Bool False)"
    by simp_all
next
  assume "falsy (getProp row col)"
  then show "applyField row (k, col) l = l" by (rule applyField_falsy)
next
  assume "distinct (map fst cm) \<and> (''value'', col) \<in> set cm \<and> getProp row col = Num 0"
  then have d: "distinct (map fst cm)" and m: "(''value'', col) \<in> set cm"
    and z: "getProp row col = Num 0" by simp_all
  show "value (mkLead clock cm i row) = None"
    using value_mkLead [OF d m, of clock i row] z by simp
next
  assume "sameTruthyCells cm r1 r2"
  then show "mkLead clock cm i r1 = mkLead clock cm i r2" by (rule sameTruthy_mkLead)
next
  assume h: "distinct (map fst cm) \<and> (k, col) \<in> set cm \<and> k \<in> {''name'', ''phone''}
        \<and> falsy (getProp row col)"
  then have d: "distinct (map fst cm)" and m: "(k, col) \<in> set cm"
    and f: "falsy (getProp row col)" and "k = ''name'' \<or> k = ''phone''" by simp_all
  from this(4) show "rejected (mkLead clock cm i row)"
  proof
    assume "k = ''name''"
    with m have "(''name'', col) \<in> set cm" by simp
    from name_mkLead [OF d this, of clock i row] f
    have "name (mkLead clock cm i row) = None" by simp
    then show ?thesis by (simp add: rejected_def unset_def)
  next
    assume "k = ''phone''"
    with m have "(''phone'', col) \<in> set cm" by simp
    from phone_mkLead [OF d this, of clock i row] f
    have "phone (mkLead clock cm i row) = None" by simp
    then show ?thesis by (simp add: rejected_def unset_def)
  qed
qed

theorem falsy_cell_skips_field_witness:
  "falsy (getProp zeroRow ''Value'')
   \<and> applyField zeroRow (''value'', ''Value'') (defaultLead tick 0) = defaultLead tick 0
   \<and> value (mkLead tick vocabularyMapping 0 zeroRow) = None
   \<and> sameTruthyCells scenarioMapping (rawData scenarioState ! 2) absentNameRow
   \<and> mkLead tick scenarioMapping 2 (rawData scenarioState ! 2)
       = mkLead tick scenarioMapping 2 absentNameRow
   \<and> getProp (rawData scenarioState ! 2) ''Full Name'' = Str []
   \<and> rejected (mkLead tick scenarioMapping 2 (rawData scenarioState ! 2))
   \<and> getProp absentNameRow ''Full Name'' = Undefined
   \<and> rejected (mkLead tick scenarioMapping 2 absentNameRow)"
proof -
  have z: "getProp zeroRow ''Value'' = Num 0" by (simp add: getProp_def zeroRow_def)
  have e: "getProp (rawData scenarioState ! 2) ''Full Name'' = Str []"
    by (simp add: scenario_rows getProp_def)
  have u: "getProp absentNameRow ''Full Name'' = Undefined"
    by (simp add: absentNameRow_def getProp_def objectPrototypeNames_def)
  have m: "distinct (map fst scenarioMapping)" "(''name'', ''Full Name'') \<in> set scenarioMapping"
    by (simp_all add: scenarioMapping_def)
  have "applyField zeroRow (''value'', ''Value'') (defaultLead tick 0) = defaultLead tick 0"
    using falsy_cell_skips_field [where row = zeroRow and col = "''Value''" and k = "''value''"
        and l = "defaultLead tick 0"] z
    by simp
  moreover have "value (mkLead tick vocabularyMapping 0 zeroRow) = None"
    using falsy_cell_skips_field [where row = zeroRow and col = "''Value''" and cm = vocabularyMapping
        and clock = tick and i = 0] z vocabularyMapping_keys
    by simp
  moreover have "mkLead tick scenarioMapping 2 (rawData scenarioState ! 2)
       = mkLead tick scenarioMapping 2 absentNameRow"
    using falsy_cell_skips_field [where cm = scenarioMapping and ?r1.0 = "rawData scenarioState ! 2"
        and ?r2.0 = absentNameRow and clock = tick and i = 2] absentName_sameTruthy
    by blast
  moreover have "rejected (mkLead tick scenarioMapping 2 (rawData scenarioState ! 2))"
    using falsy_cell_skips_field [where row = "rawData scenarioState ! 2" and col = "''Full Name''"
        and k = "''name''" and cm = scenarioMapping and clock = tick and i = 2] e m
    by simp
  moreover have "rejected (mkLead tick scenarioMapping 2 absentNameRow)"
    using falsy_cell_skips_field [where row = absentNameRow and col = "''Full Name''"
        and k = "''name''" and cm = scenarioMapping and clock = tick and i = 2] u m
    by simp
  ultimately show ?thesis using z e u absentName_sameTruthy by simp
qed

end
